theory Spec2Isabelle
  imports Complex_Main
begin

section \<open>Data model\<close>

text \<open>
  The model follows \<^verbatim>\<open>software/analytics_module.py\<close>, \<^verbatim>\<open>software/main.py\<close> and
  \<^verbatim>\<open>software/security_module.py\<close>.

  Python integers are \<^typ>\<open>int\<close>. Timestamps (\<^verbatim>\<open>time.time()\<close>) and heatmap intensities are
  Python/NumPy floats; they are idealised as exact rationals. The rounded scaling of a
  centre to heatmap coordinates is taken as a parameter instead (\<open>float_scale\<close> below). A Python \<^verbatim>\<open>dict\<close> is an
  association list in insertion order, because \<^verbatim>\<open>_update_tracks\<close> iterates over the keys in
  that order.
\<close>

type_synonym pos = "int \<times> int"

text \<open>A detection as built by \<^verbatim>\<open>Detector.extract_detections\<close>: label and pixel box.\<close>

record detection =
  class_name :: string
  det_x1 :: int
  det_y1 :: int
  det_x2 :: int
  det_y2 :: int

text \<open>The value stored under a track identifier in \<^verbatim>\<open>person_tracks\<close>.\<close>

record track =
  position :: pos
  entry_time :: rat
  last_seen :: rat

type_synonym tracks = "(int \<times> track) list"

subsection \<open>Dictionaries in insertion order\<close>

text \<open>\<^verbatim>\<open>d[k] = v\<close>: an existing key keeps its place, a new key goes to the end.\<close>

fun dict_set :: "'k \<Rightarrow> 'v \<Rightarrow> ('k \<times> 'v) list \<Rightarrow> ('k \<times> 'v) list" where
  "dict_set k v [] = [(k, v)]"
| "dict_set k v (kv # d) = (if fst kv = k then (k, v) # d else kv # dict_set k v d)"

text \<open>\<^verbatim>\<open>del d[k]\<close> for a key that is present.\<close>

definition dict_del :: "'k \<Rightarrow> ('k \<times> 'v) list \<Rightarrow> ('k \<times> 'v) list" where
  "dict_del k d = filter (\<lambda>kv. fst kv \<noteq> k) d"

definition dict_keys :: "('k \<times> 'v) list \<Rightarrow> 'k list" where
  "dict_keys d = map fst d"

definition dict_values :: "('k \<times> 'v) list \<Rightarrow> 'v list" where
  "dict_values d = map snd d"

subsection \<open>The analytics module\<close>

text \<open>
  The fields of \<^verbatim>\<open>AnalyticsModule\<close> that the code reads again after the constructor. The
  heatmap array is a function from (row, column) to intensity; \<^verbatim>\<open>heatmap_resolution\<close> is the
  pair that the code unpacks as \<^verbatim>\<open>map_h, map_w\<close>.
\<close>

record analytics =
  enable_counting :: bool
  enable_heatmap :: bool
  heatmap_resolution :: "int \<times> int"
  heatmap :: "int \<times> int \<Rightarrow> rat"
  person_tracks :: tracks
  track_counter :: int
  frame_count :: int
  people_count_history :: "(int \<times> nat) list"

record analytics_config =
  cfg_enable_people_counting :: bool
  cfg_enable_heatmap :: bool
  cfg_heatmap_resolution :: "int \<times> int"

definition default_config :: analytics_config where
  "default_config =
     \<lparr>cfg_enable_people_counting = True, cfg_enable_heatmap = True,
      cfg_heatmap_resolution = (640, 480)\<rparr>"

text \<open>\<^verbatim>\<open>AnalyticsModule.__init__\<close>.\<close>

definition analytics_init :: "analytics_config \<Rightarrow> analytics" where
  "analytics_init cfg =
     \<lparr>enable_counting = cfg_enable_people_counting cfg,
      enable_heatmap = cfg_enable_heatmap cfg,
      heatmap_resolution = cfg_heatmap_resolution cfg,
      heatmap = (\<lambda>cell. 0),
      person_tracks = [],
      track_counter = 0,
      frame_count = 0,
      people_count_history = []\<rparr>"

section \<open>Centroid tracking: \<^verbatim>\<open>_update_tracks\<close>\<close>

text \<open>Lines 85--89: the centroid of a box, with Python's floor division.\<close>

definition centroid :: "detection \<Rightarrow> pos" where
  "centroid det = ((det_x1 det + det_x2 det) div 2, (det_y1 det + det_y2 det) div 2)"

text \<open>\<^verbatim>\<open>current_centroids[len(current_centroids)] = (cx, cy)\<close> for every detection.\<close>

definition current_centroids :: "detection list \<Rightarrow> (nat \<times> pos) list" where
  "current_centroids dets =
     foldl (\<lambda>cc det. dict_set (length cc) (centroid det) cc) [] dets"

text \<open>
  Line 101 computes \<^verbatim>\<open>dist = np.sqrt(dx**2 + dy**2)\<close> and line 102 tests
  \<^verbatim>\<open>dist < closest_dist and dist < 50\<close>. The model keeps the squared distance, an exact
  integer: the square root is strictly monotone, so \<open>dist < 50\<close> is \<open>d < 2500\<close> and
  \<open>dist < closest_dist\<close> is the comparison of the squares (lemmas \<open>sqrt_dist_less_50\<close> and
  \<open>sqrt_dist_less\<close> below). The coordinates are pixel coordinates, so the sum of squares
  is an integer that \<^verbatim>\<open>float64\<close> holds exactly, and the rounded root keeps both
  comparisons: a stored \<^verbatim>\<open>closest_dist\<close> is the root of an integer below 2500, and two such
  roots differ by more than the rounding error. \<^verbatim>\<open>closest_dist = float('inf')\<close> is \<open>None\<close>,
  and \<^verbatim>\<open>closest_idx = -1\<close> is \<open>None\<close>.
\<close>

definition dist2 :: "pos \<Rightarrow> pos \<Rightarrow> int" where
  "dist2 p q = (fst p - fst q)\<^sup>2 + (snd p - snd q)\<^sup>2"

fun closest_step ::
  "nat set \<Rightarrow> pos \<Rightarrow> int option \<times> nat option \<Rightarrow> nat \<times> pos \<Rightarrow> int option \<times> nat option" where
  "closest_step matched old_pos (closest_dist, closest_idx) (idx, p) =
     (if idx \<notin> matched then
        (let d = dist2 p old_pos in
         if (case closest_dist of None \<Rightarrow> True | Some c \<Rightarrow> d < c) \<and> d < 2500
         then (Some d, Some idx)
         else (closest_dist, closest_idx))
      else (closest_dist, closest_idx))"

text \<open>Lines 96--104: the inner loop over \<^verbatim>\<open>current_centroids.items()\<close>; the result is \<^verbatim>\<open>closest_idx\<close>.\<close>

definition find_closest :: "nat set \<Rightarrow> pos \<Rightarrow> (nat \<times> pos) list \<Rightarrow> nat option" where
  "find_closest matched old_pos cc = snd (foldl (closest_step matched old_pos) (None, None) cc)"

text \<open>
  The state of the loop over the existing tracks (lines 94--112). \<open>ms_clock\<close> counts the
  calls of \<^verbatim>\<open>time.time()\<close> made so far: the \<open>n\<close>-th call returns \<open>clk n\<close>. \<open>ms_assigned\<close> is
  not program state: it records each execution of lines 107--109 as the pair (track
  identifier, index of the centroid given to it). \<open>ms_raised\<close> is set when a dictionary
  lookup fails, which sends control to the \<^verbatim>\<open>except\<close> handler of line 124.
\<close>

record match_state =
  ms_tracks :: tracks
  ms_matched :: "nat set"
  ms_clock :: nat
  ms_assigned :: "(int \<times> nat) list"
  ms_raised :: bool

fun match_tracks ::
  "(nat \<Rightarrow> rat) \<Rightarrow> (nat \<times> pos) list \<Rightarrow> int list \<Rightarrow> match_state \<Rightarrow> match_state" where
  "match_tracks clk cc [] st = st"
| "match_tracks clk cc (track_id # rest) st =
     (case map_of (ms_tracks st) track_id of
        None \<Rightarrow> st\<lparr>ms_raised := True\<rparr>
      | Some t \<Rightarrow>
          (case find_closest (ms_matched st) (position t) cc of
             Some closest_idx \<Rightarrow>
               (case map_of cc closest_idx of
                  None \<Rightarrow> st\<lparr>ms_raised := True\<rparr>
                | Some p \<Rightarrow>
                    match_tracks clk cc rest
                      (st\<lparr>ms_tracks :=
                            dict_set track_id
                              (t\<lparr>position := p, last_seen := clk (ms_clock st)\<rparr>)
                              (ms_tracks st),
                          ms_matched := insert closest_idx (ms_matched st),
                          ms_clock := Suc (ms_clock st),
                          ms_assigned := ms_assigned st @ [(track_id, closest_idx)]\<rparr>))
           | None \<Rightarrow>
               match_tracks clk cc rest
                 (st\<lparr>ms_tracks := dict_del track_id (ms_tracks st)\<rparr>)))"

text \<open>
  The state of the loop that creates tracks (lines 115--122). \<open>sp_created\<close> is not program
  state: it records each execution of lines 117--122 as the pair (index of the centroid,
  identifier of the track created for it).
\<close>

record spawn_state =
  sp_tracks :: tracks
  sp_counter :: int
  sp_clock :: nat
  sp_created :: "(nat \<times> int) list"

fun new_tracks ::
  "(nat \<Rightarrow> rat) \<Rightarrow> nat set \<Rightarrow> (nat \<times> pos) list \<Rightarrow> spawn_state \<Rightarrow> spawn_state" where
  "new_tracks clk matched [] st = st"
| "new_tracks clk matched ((idx, p) # rest) st =
     (if idx \<notin> matched then
        new_tracks clk matched rest
          (st\<lparr>sp_counter := sp_counter st + 1,
              sp_tracks :=
                dict_set (sp_counter st + 1)
                  \<lparr>position = p, entry_time = clk (sp_clock st),
                   last_seen = clk (Suc (sp_clock st))\<rparr>
                  (sp_tracks st),
              sp_clock := sp_clock st + 2,
              sp_created := sp_created st @ [(idx, sp_counter st + 1)]\<rparr>)
      else new_tracks clk matched rest st)"

text \<open>
  What one call of \<^verbatim>\<open>_update_tracks\<close> leaves behind: the two fields of the module that it
  writes, the number of clock readings consumed, and the two records of what it did.
\<close>

record track_update =
  tu_tracks :: tracks
  tu_counter :: int
  tu_clock :: nat
  tu_assigned :: "(int \<times> nat) list"
  tu_created :: "(nat \<times> int) list"
  tu_raised :: bool

definition match_start :: "tracks \<Rightarrow> nat \<Rightarrow> match_state" where
  "match_start trs k =
     \<lparr>ms_tracks = trs, ms_matched = {}, ms_clock = k, ms_assigned = [], ms_raised = False\<rparr>"

definition update_tracks ::
  "(nat \<Rightarrow> rat) \<Rightarrow> nat \<Rightarrow> detection list \<Rightarrow> tracks \<Rightarrow> int \<Rightarrow> track_update" where
  "update_tracks clk k dets trs counter =
     (let cc = current_centroids dets;
          m = match_tracks clk cc (dict_keys trs) (match_start trs k)
      in if ms_raised m then
           \<lparr>tu_tracks = ms_tracks m, tu_counter = counter, tu_clock = ms_clock m,
            tu_assigned = ms_assigned m, tu_created = [], tu_raised = True\<rparr>
         else
           (let n = new_tracks clk (ms_matched m) cc
                      \<lparr>sp_tracks = ms_tracks m, sp_counter = counter, sp_clock = ms_clock m,
                       sp_created = []\<rparr>
            in \<lparr>tu_tracks = sp_tracks n, tu_counter = sp_counter n, tu_clock = sp_clock n,
                tu_assigned = ms_assigned m, tu_created = sp_created n, tu_raised = False\<rparr>))"

text \<open>
  The centroids that are already matched when the loop of line 94 reaches the track
  \<open>tid\<close>: the value of \<^verbatim>\<open>matched_tracks\<close> after the tracks before it have been processed.
\<close>

definition matched_before ::
  "(nat \<Rightarrow> rat) \<Rightarrow> nat \<Rightarrow> detection list \<Rightarrow> tracks \<Rightarrow> int \<Rightarrow> nat set" where
  "matched_before clk k dets trs tid =
     ms_matched
       (match_tracks clk (current_centroids dets)
          (takeWhile (\<lambda>x. x \<noteq> tid) (dict_keys trs)) (match_start trs k))"

text \<open>The Euclidean distance of line 101, as a real number.\<close>

definition euclid :: "pos \<Rightarrow> pos \<Rightarrow> real" where
  "euclid p q = sqrt (real_of_int (dist2 p q))"

text \<open>
  The tracks satisfy \<open>tracks_wf\<close> in every state the module can be in (lemma
  \<open>run_wf\<close> below): the keys of a dictionary are distinct, and no identifier in use exceeds
  the counter.
\<close>

definition tracks_wf :: "tracks \<Rightarrow> int \<Rightarrow> bool" where
  "tracks_wf trs counter \<longleftrightarrow>
     distinct (dict_keys trs) \<and> list_all (\<lambda>k. k \<le> counter) (dict_keys trs)"

section \<open>Heatmap: \<^verbatim>\<open>_update_heatmap\<close>\<close>

text \<open>Python's \<^verbatim>\<open>int(x)\<close> on a float truncates towards zero.\<close>

definition py_int :: "rat \<Rightarrow> int" where
  "py_int q = (if 0 \<le> q then \<lfloor>q\<rfloor> else \<lceil>q\<rceil>)"

text \<open>
  \<^verbatim>\<open>cv2.circle(img, center, radius, color, -1)\<close> writes \<open>color\<close> into the cells of a filled
  circle, clipped to the array, and leaves every other cell as it is. Which cells the
  library rasterises is not part of this repository: \<open>covers shape center radius cell\<close> says
  whether the call writes \<open>cell\<close>, and is a parameter of the model.
\<close>

type_synonym circle_fill = "int \<times> int \<Rightarrow> pos \<Rightarrow> int \<Rightarrow> int \<times> int \<Rightarrow> bool"

definition cv2_circle ::
  "circle_fill \<Rightarrow> int \<times> int \<Rightarrow> (int \<times> int \<Rightarrow> rat) \<Rightarrow> pos \<Rightarrow> int \<Rightarrow> rat \<Rightarrow> (int \<times> int \<Rightarrow> rat)" where
  "cv2_circle covers shape img center radius color =
     (\<lambda>cell. if covers shape center radius cell then color else img cell)"

text \<open>
  Lines 70 and 71 compute \<^verbatim>\<open>int((c / n) * m)\<close> in \<^verbatim>\<open>float64\<close> arithmetic: the quotient and
  the product are each rounded before the truncation, so the result can differ from the
  truncated exact value (for \<open>c = 164\<close>, \<open>n = 640\<close>, \<open>m = 480\<close> the code obtains 122, where
  the exact product is 123). The rounded arithmetic is not modelled: \<open>scale c n m\<close> is the
  integer that the code obtains for \<open>n \<noteq> 0\<close>, and is a parameter of the model.
\<close>

type_synonym float_scale = "int \<Rightarrow> int \<Rightarrow> int \<Rightarrow> int"

text \<open>The two operations that the model takes from outside.\<close>

record numerics =
  nm_circle :: circle_fill
  nm_scale :: float_scale

text \<open>
  Lines 65--71: the heatmap coordinates \<^verbatim>\<open>(hm_x, hm_y)\<close> of a detection, for a frame with
  non-zero width and height. The halving of lines 66 and 67 is exact on pixel
  coordinates.
\<close>

fun heatmap_point :: "float_scale \<Rightarrow> int \<times> int \<Rightarrow> int \<times> int \<Rightarrow> detection \<Rightarrow> pos" where
  "heatmap_point scale (frame_h, frame_w) (map_h, map_w) det =
     (let center_x = py_int (of_int (det_x1 det + det_x2 det) / 2);
          center_y = py_int (of_int (det_y1 det + det_y2 det) / 2);
          hm_x = scale center_x frame_w map_w;
          hm_y = scale center_y frame_h map_h
      in (hm_x, hm_y))"

text \<open>
  Lines 63--74. A frame of width or height 0 makes the division of line 70 or 71 raise
  \<^verbatim>\<open>ZeroDivisionError\<close> before anything is drawn; the handler of line 76 then ends the
  call with the heatmap as it is. The array has the shape \<^verbatim>\<open>heatmap_resolution\<close> (line 28).
\<close>

fun heatmap_loop ::
  "numerics \<Rightarrow> int \<times> int \<Rightarrow> int \<times> int \<Rightarrow> (int \<times> int \<Rightarrow> rat) \<Rightarrow> detection list
     \<Rightarrow> (int \<times> int \<Rightarrow> rat)" where
  "heatmap_loop lib frame_shape res hm [] = hm"
| "heatmap_loop lib frame_shape res hm (det # rest) =
     (if snd frame_shape = 0 \<or> fst frame_shape = 0 then hm
      else heatmap_loop lib frame_shape res
             (cv2_circle (nm_circle lib) res hm
                (heatmap_point (nm_scale lib) frame_shape res det) 10 1)
             rest)"

definition update_heatmap ::
  "numerics \<Rightarrow> detection list \<Rightarrow> int \<times> int \<Rightarrow> analytics \<Rightarrow> analytics" where
  "update_heatmap lib detections frame_shape s =
     s\<lparr>heatmap := heatmap_loop lib frame_shape (heatmap_resolution s) (heatmap s) detections\<rparr>"

section \<open>Dwell time, \<^verbatim>\<open>update\<close>, statistics and resets\<close>

text \<open>Lines 127--140, with \<open>current_time\<close> the value read at line 133.\<close>

definition calculate_avg_dwell_time :: "rat \<Rightarrow> analytics \<Rightarrow> rat" where
  "calculate_avg_dwell_time current_time s =
     (if person_tracks s = [] then 0
      else
        (let dwell_times =
               map (\<lambda>t. current_time - entry_time t) (dict_values (person_tracks s))
         in if dwell_times \<noteq> [] then sum_list dwell_times / of_nat (length dwell_times)
            else 0))"

record update_result =
  people_count :: nat
  active_tracks :: nat
  average_dwell_time :: rat

text \<open>The call of \<^verbatim>\<open>_update_tracks\<close> made by \<^verbatim>\<open>update\<close>; its clock readings start at \<open>clk 0\<close>.\<close>

definition tracks_step :: "(nat \<Rightarrow> rat) \<Rightarrow> detection list \<Rightarrow> analytics \<Rightarrow> track_update" where
  "tracks_step clk dets s = update_tracks clk 0 dets (person_tracks s) (track_counter s)"

text \<open>
  \<^verbatim>\<open>AnalyticsModule.update\<close> (lines 35--55). The frame is represented by its shape
  \<^verbatim>\<open>(height, width)\<close>, the only thing the module reads from it.
\<close>

definition update ::
  "numerics \<Rightarrow> (nat \<Rightarrow> rat) \<Rightarrow> detection list \<Rightarrow> int \<times> int \<Rightarrow> analytics
     \<Rightarrow> analytics \<times> update_result" where
  "update lib clk person_detections frame_shape s =
     (let s1 = s\<lparr>frame_count := frame_count s + 1\<rparr>;
          current_count = length person_detections;
          s2 = s1\<lparr>people_count_history :=
                    dict_set (frame_count s1 div 30) current_count (people_count_history s1)\<rparr>;
          s3 = (if enable_heatmap s2 then update_heatmap lib person_detections frame_shape s2
                else s2);
          u = tracks_step clk person_detections s3;
          s4 = (if enable_counting s3
                then s3\<lparr>person_tracks := tu_tracks u, track_counter := tu_counter u\<rparr>
                else s3);
          k = (if enable_counting s3 then tu_clock u else 0)
      in (s4,
          \<lparr>people_count = current_count,
           active_tracks = length (person_tracks s4),
           average_dwell_time = calculate_avg_dwell_time (clk k) s4\<rparr>))"

record statistics =
  total_frames :: int
  average_people_count :: rat
  peak_people_count :: nat
  current_tracks :: nat
  avg_dwell_time :: rat
  total_people_passed :: int

text \<open>\<^verbatim>\<open>np.mean\<close> and \<^verbatim>\<open>max\<close> of a non-empty list.\<close>

definition mean :: "rat list \<Rightarrow> rat" where
  "mean xs = sum_list xs / of_nat (length xs)"

fun list_max :: "nat list \<Rightarrow> nat" where
  "list_max [] = 0"
| "list_max (x # xs) = fold max xs x"

text \<open>\<^verbatim>\<open>get_statistics\<close> (lines 162--176), with \<open>now\<close> the clock reading of the dwell-time call.\<close>

definition get_statistics :: "rat \<Rightarrow> analytics \<Rightarrow> statistics" where
  "get_statistics now s =
     \<lparr>total_frames = frame_count s,
      average_people_count =
        (if people_count_history s \<noteq> []
         then mean (map of_nat (dict_values (people_count_history s))) else 0),
      peak_people_count =
        (if people_count_history s \<noteq> [] then list_max (dict_values (people_count_history s))
         else 0),
      current_tracks = length (person_tracks s),
      avg_dwell_time = calculate_avg_dwell_time now s,
      total_people_passed = track_counter s\<rparr>"

definition reset_heatmap :: "analytics \<Rightarrow> analytics" where
  "reset_heatmap s = s\<lparr>heatmap := (\<lambda>cell. 0)\<rparr>"

definition reset_statistics :: "analytics \<Rightarrow> analytics" where
  "reset_statistics s =
     s\<lparr>people_count_history := [], person_tracks := [], frame_count := 0, track_counter := 0\<rparr>"

subsection \<open>Sequences of operations\<close>

datatype analytics_op =
  Update "nat \<Rightarrow> rat" "detection list" "int \<times> int"
  | ResetHeatmap
  | ResetStatistics

fun apply_op :: "numerics \<Rightarrow> analytics \<Rightarrow> analytics_op \<Rightarrow> analytics" where
  "apply_op lib s (Update clk dets frame_shape) = fst (update lib clk dets frame_shape s)"
| "apply_op lib s ResetHeatmap = reset_heatmap s"
| "apply_op lib s ResetStatistics = reset_statistics s"

definition run :: "numerics \<Rightarrow> analytics \<Rightarrow> analytics_op list \<Rightarrow> analytics" where
  "run lib s ops = foldl (apply_op lib) s ops"

text \<open>
  The identifiers given to new tracks while a sequence of operations runs, in the order in
  which line 117 produces them.
\<close>

fun issued :: "numerics \<Rightarrow> analytics \<Rightarrow> analytics_op list \<Rightarrow> int list" where
  "issued lib s [] = []"
| "issued lib s (Update clk dets frame_shape # ops) =
     (if enable_counting s then map snd (tu_created (tracks_step clk dets s)) else [])
       @ issued lib (apply_op lib s (Update clk dets frame_shape)) ops"
| "issued lib s (ResetHeatmap # ops) = issued lib (apply_op lib s ResetHeatmap) ops"
| "issued lib s (ResetStatistics # ops) = issued lib (apply_op lib s ResetStatistics) ops"

text \<open>
  Binning by wall-clock second, as a description of occupancy statistics would have it:
  an update that happens at time \<open>t\<close> with \<open>n\<close> people records \<open>n\<close> under the second
  \<open>\<lfloor>t\<rfloor>\<close>. This definition follows the specification's words and is compared with the
  history that \<open>update\<close> keeps.
\<close>

definition wallclock_history :: "(rat \<times> nat) list \<Rightarrow> (int \<times> nat) list" where
  "wallclock_history obs = foldl (\<lambda>h (t, n). dict_set \<lfloor>t\<rfloor> n h) [] obs"

section \<open>Security module\<close>

type_synonym encoding = "rat list"
type_synonym face_box = "int \<times> int \<times> int \<times> int"

datatype alert_data =
  MotionData rat nat
  | FaceData string face_box

record alert =
  alert_type :: string
  severity :: string
  alert_data :: alert_data

text \<open>
  \<^verbatim>\<open>SecurityModule\<close>. \<open>face_recognition\<close> is the attribute of that name: true when the import
  of line 35 succeeded, false when it is \<^verbatim>\<open>None\<close>. \<open>enable_face_recognition\<close> is the
  configuration value stored by line 25. \<open>alert_log\<close> collects the alerts that
  \<^verbatim>\<open>generate_alert\<close> hands to the database, the notifiers and the log.
\<close>

record security_module =
  enable_face_recognition :: bool
  enable_alerts :: bool
  face_recognition :: bool
  known_faces :: "(string \<times> encoding) list"
  alert_log :: "alert list"

record face =
  face_location :: face_box
  face_encoding :: encoding
  face_name :: string
  is_known :: bool

text \<open>
  \<^verbatim>\<open>_recognize_face\<close> (lines 93--110). With no known face line 96 returns \<^verbatim>\<open>"Unknown"\<close>.
  Otherwise line 102 calls \<^verbatim>\<open>np.argmin\<close>, but the module never imports \<^verbatim>\<open>numpy\<close>: the
  \<^verbatim>\<open>NameError\<close> is caught at line 108 and line 110 returns \<^verbatim>\<open>"Unknown"\<close>.
\<close>

definition recognize_face :: "(string \<times> encoding) list \<Rightarrow> encoding \<Rightarrow> string" where
  "recognize_face known enc = (if known = [] then ''Unknown'' else ''Unknown'')"

text \<open>
  \<^verbatim>\<open>detect_faces\<close> (lines 55--91). \<open>located\<close> is what the face library returns for the
  frame, the boxes zipped with their encodings, or \<open>None\<close> when it raises (line 89).
\<close>

definition detect_faces ::
  "security_module \<Rightarrow> (face_box \<times> encoding) list option \<Rightarrow> face list" where
  "detect_faces sec located =
     (if \<not> face_recognition sec then []
      else
        (case located of
           None \<Rightarrow> []
         | Some found \<Rightarrow>
             map (\<lambda>((top, right, bottom, left), enc).
                    (let name = recognize_face (known_faces sec) enc
                     in \<lparr>face_location = (top * 4, right * 4, bottom * 4, left * 4),
                         face_encoding = enc,
                         face_name = name,
                         is_known = (name \<noteq> ''Unknown'')\<rparr>))
               found))"

text \<open>\<^verbatim>\<open>generate_alert\<close> (lines 112--140): nothing happens when alerts are switched off.\<close>

definition generate_alert :: "string \<Rightarrow> string \<Rightarrow> alert_data \<Rightarrow> security_module \<Rightarrow> security_module" where
  "generate_alert typ sev d sec =
     (if \<not> enable_alerts sec then sec
      else sec\<lparr>alert_log := alert_log sec @ [\<lparr>alert_type = typ, severity = sev, alert_data = d\<rparr>]\<rparr>)"

section \<open>The application: \<^verbatim>\<open>CameraApp\<close>\<close>

record camera_app =
  running :: bool
  fps_counter :: int
  last_fps_time :: rat
  app_security :: security_module
  app_analytics :: analytics

text \<open>
  \<^verbatim>\<open>get_fps\<close> (lines 121--129). \<open>t_read\<close> is the clock reading of line 123 and \<open>t_reset\<close>
  the one of line 127.
\<close>

definition get_fps :: "rat \<Rightarrow> rat \<Rightarrow> camera_app \<Rightarrow> rat \<times> camera_app" where
  "get_fps t_read t_reset app =
     (let elapsed = t_read - last_fps_time app
      in if elapsed > 1 then
           (of_int (fps_counter app) / elapsed, app\<lparr>fps_counter := 0, last_fps_time := t_reset\<rparr>)
         else (0, app))"

record status_response =
  status :: string
  frames_processed :: int
  fps :: rat

text \<open>The route \<^verbatim>\<open>/api/status\<close> (lines 75--84); the dictionary is built in source order.\<close>

definition status_route :: "rat \<Rightarrow> rat \<Rightarrow> camera_app \<Rightarrow> status_response \<times> camera_app" where
  "status_route t_read t_reset app =
     (let st = (if running app then ''running'' else ''stopped'');
          n = fps_counter app;
          (f, app') = get_fps t_read t_reset app
      in (\<lparr>status = st, frames_processed = n, fps = f\<rparr>, app'))"

text \<open>
  What the collaborators hand to one call of \<^verbatim>\<open>process_frame\<close>: the result of the motion
  detector, the detections extracted from the detector's result, the faces located by the
  face library, the shape of the frame, and the clock readings.
\<close>

record frame_inputs =
  fi_motion_detected :: bool
  fi_motion_mag :: rat
  fi_detections :: "detection list"
  fi_located :: "(face_box \<times> encoding) list option"
  fi_frame_shape :: "int \<times> int"
  fi_clock :: "nat \<Rightarrow> rat"
  fi_fps_read :: rat
  fi_fps_reset :: rat

definition get_people_detections :: "detection list \<Rightarrow> detection list" where
  "get_people_detections detections = filter (\<lambda>d. class_name d = ''person'') detections"

text \<open>Lines 171--183: the check for unknown faces.\<close>

definition unknown_face_check ::
  "detection list \<Rightarrow> (face_box \<times> encoding) list option \<Rightarrow> security_module \<Rightarrow> security_module" where
  "unknown_face_check person_detections located sec =
     (if face_recognition sec \<and> length person_detections > 0 then
        foldl (\<lambda>sc f.
                 if \<not> is_known f
                 then generate_alert ''unknown_face'' ''critical''
                        (FaceData (face_name f) (face_location f)) sc
                 else sc)
          sec (detect_faces sec located)
      else sec)"

text \<open>\<^verbatim>\<open>process_frame\<close> (lines 149--197).\<close>

definition process_frame :: "numerics \<Rightarrow> frame_inputs \<Rightarrow> camera_app \<Rightarrow> camera_app" where
  "process_frame lib inp app =
     (let person_detections = get_people_detections (fi_detections inp);
          sec1 = (if fi_motion_detected inp \<and> fi_motion_mag inp > 10
                  then generate_alert ''motion_detected'' ''medium''
                         (MotionData (fi_motion_mag inp) (length person_detections))
                         (app_security app)
                  else app_security app);
          sec2 = unknown_face_check person_detections (fi_located inp) sec1;
          an = fst (update lib (fi_clock inp) person_detections (fi_frame_shape inp)
                      (app_analytics app));
          app1 = snd (get_fps (fi_fps_read inp) (fi_fps_reset inp)
                        (app\<lparr>app_security := sec2, app_analytics := an\<rparr>))
      in app1\<lparr>fps_counter := fps_counter app1 + 1\<rparr>)"

text \<open>
  The constructor (lines 62--66, with \<open>now\<close> the clock reading of line 66), and the
  assignments to \<^verbatim>\<open>self.running\<close> in \<^verbatim>\<open>run\<close> (line 212) and \<^verbatim>\<open>stop\<close> (line 268).
\<close>

definition camera_app_init :: "security_module \<Rightarrow> analytics_config \<Rightarrow> rat \<Rightarrow> camera_app" where
  "camera_app_init sec cfg now =
     \<lparr>running = False, fps_counter = 0, last_fps_time = now, app_security = sec,
      app_analytics = analytics_init cfg\<rparr>"

definition start :: "camera_app \<Rightarrow> camera_app" where
  "start app = app\<lparr>running := True\<rparr>"

definition stop :: "camera_app \<Rightarrow> camera_app" where
  "stop app = app\<lparr>running := False\<rparr>"

text \<open>
  The operations on the shared status: the processing loop of \<^verbatim>\<open>run\<close> handles a frame only
  while \<open>running\<close> holds (line 242); the status route can be read at any time.
\<close>

datatype pipeline_op =
  ProcessFrame frame_inputs
  | StatusRead rat rat

fun op_read_time :: "pipeline_op \<Rightarrow> rat" where
  "op_read_time (ProcessFrame inp) = fi_fps_read inp"
| "op_read_time (StatusRead t_read t_reset) = t_read"

fun pipeline_step :: "numerics \<Rightarrow> camera_app \<Rightarrow> pipeline_op \<Rightarrow> camera_app" where
  "pipeline_step lib app (ProcessFrame inp) =
     (if running app then process_frame lib inp app else app)"
| "pipeline_step lib app (StatusRead t_read t_reset) = snd (status_route t_read t_reset app)"

text \<open>
  No operation of the sequence reads the frame rate more than one second after the window
  was last reset.
\<close>

fun window_open :: "camera_app \<Rightarrow> pipeline_op list \<Rightarrow> bool" where
  "window_open app [] = True"
| "window_open app (op # ops) =
     (op_read_time op - last_fps_time app \<le> 1 \<and> window_open app ops)"

section \<open>Reachable states and sample inputs\<close>

text \<open>
  What holds of the module in every state: the tracks are well formed, and a module that
  does not count people has no tracks.
\<close>

definition analytics_inv :: "analytics \<Rightarrow> bool" where
  "analytics_inv s \<longleftrightarrow>
     tracks_wf (person_tracks s) (track_counter s) \<and>
     (enable_counting s \<or> person_tracks s = [])"

text \<open>The heatmap holds nothing but 0 and 1.\<close>

definition binary :: "(int \<times> int \<Rightarrow> rat) \<Rightarrow> bool" where
  "binary hm \<longleftrightarrow> (\<forall>cell. hm cell = 0 \<or> hm cell = 1)"

text \<open>The time and the number of people of every update in a sequence of operations.\<close>

fun observations :: "analytics_op list \<Rightarrow> (rat \<times> nat) list" where
  "observations [] = []"
| "observations (Update clk dets frame_shape # ops) = (clk 0, length dets) # observations ops"
| "observations (ResetHeatmap # ops) = observations ops"
| "observations (ResetStatistics # ops) = observations ops"

text \<open>A person's box of 20 by 40 pixels around a point.\<close>

definition box_at :: "int \<Rightarrow> int \<Rightarrow> detection" where
  "box_at x y =
     \<lparr>class_name = ''person'', det_x1 = x - 10, det_y1 = y - 20, det_x2 = x + 10, det_y2 = y + 20\<rparr>"

text \<open>A clock that returns the same reading at every call.\<close>

definition steady_clock :: "rat \<Rightarrow> nat \<Rightarrow> rat" where
  "steady_clock t n = t"

text \<open>
  A security module with the face library loaded and nothing switched off, and the inputs
  of a cycle in which the collaborators report nothing, with every clock reading \<open>t\<close>.
\<close>

definition sample_security :: security_module where
  "sample_security =
     \<lparr>enable_face_recognition = True, enable_alerts = True, face_recognition = True,
      known_faces = [], alert_log = []\<rparr>"

definition idle_frame :: "rat \<Rightarrow> frame_inputs" where
  "idle_frame t =
     \<lparr>fi_motion_detected = False, fi_motion_mag = 0, fi_detections = [], fi_located = None,
      fi_frame_shape = (480, 640), fi_clock = steady_clock t, fi_fps_read = t,
      fi_fps_reset = t\<rparr>"

text \<open>
  The same module with alerts switched off, and a cycle with one person and one face
  located by the library.
\<close>

definition silenced_security :: security_module where
  "silenced_security = sample_security\<lparr>enable_alerts := False\<rparr>"

definition face_frame :: "rat \<Rightarrow> frame_inputs" where
  "face_frame t =
     (idle_frame t)\<lparr>fi_detections := [box_at 100 100],
                     fi_located := Some [((10, 50, 40, 20), [])]\<rparr>"

text \<open>A Euclidean disc clipped to the array.\<close>

definition euclid_disc :: circle_fill where
  "euclid_disc shape center radius cell =
     (0 \<le> fst cell \<and> fst cell < fst shape \<and> 0 \<le> snd cell \<and> snd cell < snd shape \<and>
      (snd cell - fst center)\<^sup>2 + (fst cell - snd center)\<^sup>2 \<le> radius\<^sup>2)"

text \<open>
  A scaling in exact arithmetic, which agrees with the rounded one on the sample boxes,
  and the pair of sample operations.
\<close>

definition sample_scale :: float_scale where
  "sample_scale c n m = py_int (of_int c / of_int n * of_int m)"

definition sample_numerics :: numerics where
  "sample_numerics = \<lparr>nm_circle = euclid_disc, nm_scale = sample_scale\<rparr>"

section \<open>Auxiliary notions for the proofs\<close>

text \<open>
  The invariant of the loop over the existing tracks: the tracks kept so far are the ones
  that received a centroid, followed by the ones still to be processed.
\<close>

definition match_inv :: "(nat \<times> pos) list \<Rightarrow> int list \<Rightarrow> match_state \<Rightarrow> bool" where
  "match_inv cc tids st \<longleftrightarrow>
     dict_keys (ms_tracks st) = map fst (ms_assigned st) @ tids \<and>
     distinct (dict_keys (ms_tracks st)) \<and>
     \<not> ms_raised st \<and>
     snd ` set (ms_assigned st) = ms_matched st \<and>
     distinct (map snd (ms_assigned st)) \<and>
     (\<forall>(tid, i) \<in> set (ms_assigned st).
        \<exists>t. map_of (ms_tracks st) tid = Some t \<and> map_of cc i = Some (position t))"

text \<open>The indices of the centroids that no track has taken.\<close>

definition unmatched :: "nat set \<Rightarrow> (nat \<times> pos) list \<Rightarrow> nat list" where
  "unmatched M cc = filter (\<lambda>i. i \<notin> M) (map fst cc)"

section \<open>Dictionaries and the nearest-centroid scan\<close>

lemma dict_set_keys:
  "map fst (dict_set k v d) = (if k \<in> fst ` set d then map fst d else map fst d @ [k])"
  by (induction d) auto

lemma dict_set_map_of: "map_of (dict_set k v d) = (map_of d)(k \<mapsto> v)"
  by (induction d) (auto simp: fun_eq_iff)

lemma dict_set_fresh: "k \<notin> fst ` set d \<Longrightarrow> dict_set k v d = d @ [(k, v)]"
  by (induction d) auto

lemma dict_del_keys: "map fst (dict_del k d) = removeAll k (map fst d)"
  by (induction d) (auto simp: dict_del_def)

lemma dict_del_map_of: "map_of (dict_del k d) k' = (if k' = k then None else map_of d k')"
  by (induction d) (auto simp: dict_del_def)

lemma current_centroids_from:
  "foldl (\<lambda>cc det. dict_set (length cc) (centroid det) cc) (enumerate 0 xs) dets
     = enumerate 0 (xs @ map centroid dets)"
proof (induction dets arbitrary: xs)
  case Nil
  then show ?case by simp
next
  case (Cons d ds)
  have fresh: "length (enumerate 0 xs) \<notin> fst ` set (enumerate 0 xs)"
    by (auto simp: in_set_enumerate_eq)
  have "dict_set (length (enumerate 0 xs)) (centroid d) (enumerate 0 xs)
          = enumerate 0 (xs @ [centroid d])"
    using dict_set_fresh [OF fresh] by (simp add: enumerate_append_eq)
  then show ?case using Cons.IH [of "xs @ [centroid d]"] by simp
qed

lemma current_centroids_enumerate:
  "current_centroids dets = enumerate 0 (map centroid dets)"
  using current_centroids_from [of "[]" dets] by (simp add: current_centroids_def)

lemma closest_scan:
  "foldl (closest_step M p) (cd, ci) cc = (cd', ci') \<Longrightarrow>
   (ci = None \<longleftrightarrow> cd = None) \<Longrightarrow>
   (\<forall>i. ci = Some i \<longrightarrow> i \<notin> M \<and> Q i) \<Longrightarrow>
   (\<forall>i q. (i, q) \<in> set cc \<longrightarrow> i \<notin> M \<longrightarrow> dist2 q p < 2500 \<longrightarrow> Q i) \<Longrightarrow>
   (ci' = None \<longleftrightarrow> cd' = None) \<and> (\<forall>i. ci' = Some i \<longrightarrow> i \<notin> M \<and> Q i)"
proof (induction cc arbitrary: cd ci)
  case Nil
  then show ?case by simp
next
  case (Cons a cc)
  obtain idx q where a: "a = (idx, q)" by (cases a)
  obtain cd1 ci1 where s1: "closest_step M p (cd, ci) a = (cd1, ci1)"
    by (cases "closest_step M p (cd, ci) a")
  have f: "foldl (closest_step M p) (cd1, ci1) cc = (cd', ci')"
    using Cons.prems(1) s1 by simp
  have i1: "(ci1 = None \<longleftrightarrow> cd1 = None)"
    using s1 Cons.prems(2) by (auto simp: a Let_def split: if_splits)
  have qi: "Q idx" if "idx \<notin> M" "dist2 q p < 2500"
    using Cons.prems(4) [rule_format, of idx q] that by (simp add: a)
  have i2: "\<forall>i. ci1 = Some i \<longrightarrow> i \<notin> M \<and> Q i"
    using s1 Cons.prems(3) qi by (auto simp: a Let_def split: if_splits)
  show ?case by (rule Cons.IH [OF f i1 i2]) (use Cons.prems(4) in auto)
qed

lemma find_closest_Some:
  assumes "find_closest M p cc = Some i"
  shows "i \<notin> M \<and> (\<exists>q. (i, q) \<in> set cc \<and> dist2 q p < 2500)"
proof -
  obtain cd' ci' where f: "foldl (closest_step M p) (None, None) cc = (cd', ci')"
    by (cases "foldl (closest_step M p) (None, None) cc")
  have "ci' = Some i" using assms f by (simp add: find_closest_def)
  with closest_scan [OF f, where Q = "\<lambda>i. \<exists>q. (i, q) \<in> set cc \<and> dist2 q p < 2500"]
  show ?thesis by auto
qed

lemma closest_scan_keeps:
  "ci \<noteq> None \<Longrightarrow> (ci = None \<longleftrightarrow> cd = None) \<Longrightarrow>
   snd (foldl (closest_step M p) (cd, ci) cc) \<noteq> None"
proof (induction cc arbitrary: cd ci)
  case Nil
  then show ?case by simp
next
  case (Cons a cc)
  obtain idx r where a: "a = (idx, r)" by (cases a)
  obtain cd1 ci1 where s1: "closest_step M p (cd, ci) a = (cd1, ci1)"
    by (cases "closest_step M p (cd, ci) a")
  have "ci1 \<noteq> None" "(ci1 = None \<longleftrightarrow> cd1 = None)"
    using s1 Cons.prems by (auto simp: a Let_def split: if_splits)
  then show ?case using Cons.IH [of ci1 cd1] s1 by simp
qed

lemma closest_scan_found:
  "(i, q) \<in> set cc \<Longrightarrow> i \<notin> M \<Longrightarrow> dist2 q p < 2500 \<Longrightarrow>
   (ci = None \<longleftrightarrow> cd = None) \<Longrightarrow>
   snd (foldl (closest_step M p) (cd, ci) cc) \<noteq> None"
proof (induction cc arbitrary: cd ci)
  case Nil
  then show ?case by simp
next
  case (Cons a cc)
  obtain idx r where a: "a = (idx, r)" by (cases a)
  obtain cd1 ci1 where s1: "closest_step M p (cd, ci) a = (cd1, ci1)"
    by (cases "closest_step M p (cd, ci) a")
  have i1: "(ci1 = None \<longleftrightarrow> cd1 = None)"
    using s1 Cons.prems(4) by (auto simp: a Let_def split: if_splits)
  show ?case
  proof (cases "(i, q) \<in> set cc")
    case True
    then show ?thesis using Cons.IH [OF True Cons.prems(2,3) i1] s1 by simp
  next
    case False
    then have eq: "idx = i" "r = q" using Cons.prems(1) a by auto
    have "ci1 \<noteq> None"
      using s1 Cons.prems(2,3,4) by (auto simp: a eq Let_def split: if_splits option.splits)
    then have "snd (foldl (closest_step M p) (cd1, ci1) cc) \<noteq> None"
      using i1 by (rule closest_scan_keeps)
    then show ?thesis using s1 by simp
  qed
qed

section \<open>The loop over the existing tracks\<close>

lemma match_inv_lookup:
  assumes "match_inv cc (x # rest) st"
  shows "\<exists>t. map_of (ms_tracks st) x = Some t"
proof -
  have "x \<in> fst ` set (ms_tracks st)"
    using assms by (metis dict_keys_def in_set_conv_decomp list.set_map match_inv_def)
  then show ?thesis by (metis domIff dom_map_of_conv_image_fst not_Some_eq)
qed

lemma find_closest_lookup:
  assumes "find_closest M p cc = Some i"
  shows "\<exists>q. map_of cc i = Some q"
proof -
  from find_closest_Some [OF assms] obtain q where "(i, q) \<in> set cc" by blast
  then have "i \<in> fst ` set cc" by force
  then show ?thesis by (metis domIff dom_map_of_conv_image_fst not_Some_eq)
qed

lemma match_inv_assign:
  assumes inv: "match_inv cc (x # rest) st"
    and t: "map_of (ms_tracks st) x = Some t"
    and f: "find_closest (ms_matched st) (position t) cc = Some idx"
    and p: "map_of cc idx = Some p"
  shows "match_inv cc rest
           (st\<lparr>ms_tracks := dict_set x (t\<lparr>position := p, last_seen := v\<rparr>) (ms_tracks st),
               ms_matched := insert idx (ms_matched st),
               ms_clock := Suc (ms_clock st),
               ms_assigned := ms_assigned st @ [(x, idx)]\<rparr>)"
proof -
  have keys: "map fst (ms_tracks st) = map fst (ms_assigned st) @ x # rest"
    and dist: "distinct (map fst (ms_tracks st))"
    and nr: "\<not> ms_raised st"
    and m: "snd ` set (ms_assigned st) = ms_matched st"
    and ds: "distinct (map snd (ms_assigned st))"
    and ps: "\<forall>(tid, i) \<in> set (ms_assigned st).
        \<exists>t. map_of (ms_tracks st) tid = Some t \<and> map_of cc i = Some (position t)"
    using inv unfolding match_inv_def dict_keys_def by blast+
  have xin: "x \<in> fst ` set (ms_tracks st)"
    using t by (metis domI dom_map_of_conv_image_fst)
  have fresh: "idx \<notin> ms_matched st" using find_closest_Some [OF f] by simp
  have xnot: "x \<notin> fst ` set (ms_assigned st)"
    using keys dist by (metis disjoint_iff distinct_append list.set_intros(1) list.set_map)
  have k': "map fst (dict_set x (t\<lparr>position := p, last_seen := v\<rparr>) (ms_tracks st))
              = map fst (ms_assigned st) @ x # rest"
    using xin keys by (simp add: dict_set_keys)
  have ps': "\<exists>t'. map_of (dict_set x (t\<lparr>position := p, last_seen := v\<rparr>) (ms_tracks st)) tid
                  = Some t' \<and> map_of cc i = Some (position t')"
    if "(tid, i) \<in> set (ms_assigned st)" for tid i
  proof -
    have "tid \<noteq> x" using that xnot by force
    then show ?thesis using ps that by (auto simp: dict_set_map_of)
  qed
  show ?thesis
    unfolding match_inv_def dict_keys_def
    using k' dist keys nr m ds fresh ps' p
    by (auto simp: dict_set_map_of image_Un)
qed

lemma match_inv_delete:
  assumes inv: "match_inv cc (x # rest) st"
  shows "match_inv cc rest (st\<lparr>ms_tracks := dict_del x (ms_tracks st)\<rparr>)"
proof -
  have keys: "map fst (ms_tracks st) = map fst (ms_assigned st) @ x # rest"
    and dist: "distinct (map fst (ms_tracks st))"
    and ps: "\<forall>(tid, i) \<in> set (ms_assigned st).
        \<exists>t. map_of (ms_tracks st) tid = Some t \<and> map_of cc i = Some (position t)"
    using inv unfolding match_inv_def dict_keys_def by blast+
  have xnot: "x \<notin> fst ` set (ms_assigned st)" "x \<notin> set rest"
    using keys dist by (metis disjoint_iff distinct_append list.set_intros(1) list.set_map,
        metis distinct.simps(2) distinct_append)
  have k': "map fst (dict_del x (ms_tracks st)) = map fst (ms_assigned st) @ rest"
    using xnot keys by (simp add: dict_del_keys removeAll_id [simplified] image_iff)
  have d': "distinct (map fst (dict_del x (ms_tracks st)))"
    using dist by (simp add: dict_del_keys distinct_removeAll)
  have ps': "\<exists>t'. map_of (dict_del x (ms_tracks st)) tid = Some t' \<and>
                  map_of cc i = Some (position t')"
    if "(tid, i) \<in> set (ms_assigned st)" for tid i
  proof -
    have "tid \<noteq> x" using that xnot by force
    then show ?thesis using ps that by (auto simp: dict_del_map_of)
  qed
  show ?thesis
    unfolding match_inv_def dict_keys_def
    using k' d' inv ps' by (auto simp: match_inv_def)
qed

lemma match_tracks_inv:
  "match_inv cc tids st \<Longrightarrow> match_inv cc [] (match_tracks clk cc tids st)"
proof (induction tids arbitrary: st)
  case Nil
  then show ?case by simp
next
  case (Cons x rest)
  obtain t where t: "map_of (ms_tracks st) x = Some t"
    using match_inv_lookup [OF Cons.prems] by blast
  show ?case
  proof (cases "find_closest (ms_matched st) (position t) cc")
    case None
    then show ?thesis
      using t Cons.IH [OF match_inv_delete [OF Cons.prems]] by simp
  next
    case (Some idx)
    obtain p where p: "map_of cc idx = Some p" using find_closest_lookup [OF Some] by blast
    show ?thesis
      using t Some p Cons.IH [OF match_inv_assign [OF Cons.prems t Some p]] by simp
  qed
qed

lemma match_tracks_keys_subset:
  "set (dict_keys (ms_tracks (match_tracks clk cc tids st))) \<subseteq> set (dict_keys (ms_tracks st))"
proof (induction tids arbitrary: st)
  case Nil
  then show ?case by simp
next
  case (Cons x rest)
  show ?case
  proof (cases "map_of (ms_tracks st) x")
    case None
    then show ?thesis by simp
  next
    case (Some t)
    have xin: "x \<in> fst ` set (ms_tracks st)"
      using Some by (metis domI dom_map_of_conv_image_fst)
    show ?thesis
    proof (cases "find_closest (ms_matched st) (position t) cc")
      case None
      have "set (dict_keys (ms_tracks (st\<lparr>ms_tracks := dict_del x (ms_tracks st)\<rparr>)))
              \<subseteq> set (dict_keys (ms_tracks st))"
        by (auto simp: dict_keys_def dict_del_def)
      then show ?thesis
        using Some None Cons.IH [of "st\<lparr>ms_tracks := dict_del x (ms_tracks st)\<rparr>"] by auto
    next
      case idx: (Some idx)
      show ?thesis
      proof (cases "map_of cc idx")
        case None
        then show ?thesis using Some idx by simp
      next
        case p: (Some p)
        let ?st' = "st\<lparr>ms_tracks :=
                            dict_set x
                              (t\<lparr>position := p, last_seen := clk (ms_clock st)\<rparr>)
                              (ms_tracks st),
                          ms_matched := insert idx (ms_matched st),
                          ms_clock := Suc (ms_clock st),
                          ms_assigned := ms_assigned st @ [(x, idx)]\<rparr>"
        have "set (dict_keys (ms_tracks ?st')) \<subseteq> set (dict_keys (ms_tracks st))"
          using xin by (simp add: dict_keys_def dict_set_keys)
        moreover have "match_tracks clk cc (x # rest) st = match_tracks clk cc rest ?st'"
          using Some idx p by simp
        ultimately show ?thesis using Cons.IH [of ?st'] by auto
      qed
    qed
  qed
qed

section \<open>The loop that creates tracks\<close>

lemma new_tracks_counter:
  "sp_counter (new_tracks clk M cc st) = sp_counter st + int (length (unmatched M cc))"
  by (induction cc arbitrary: st) (auto simp: unmatched_def)

lemma new_tracks_created_fst:
  "map fst (sp_created (new_tracks clk M cc st)) = map fst (sp_created st) @ unmatched M cc"
  by (induction cc arbitrary: st) (auto simp: unmatched_def)

lemma upto_snoc_front: "(c::int) + 1 \<le> d \<Longrightarrow> (c + 1) # [c + 1 + 1..d] = [c + 1..d]"
  by (simp add: upto_rec1 [of "c + 1" d])

lemma new_tracks_created_snd:
  "map snd (sp_created (new_tracks clk M cc st))
     = map snd (sp_created st) @ [sp_counter st + 1..sp_counter (new_tracks clk M cc st)]"
proof (induction cc arbitrary: st)
  case Nil
  then show ?case by simp
next
  case (Cons a cc)
  obtain idx p where a: "a = (idx, p)" by (cases a)
  show ?case
  proof (cases "idx \<in> M")
    case True
    then show ?thesis using Cons.IH [of st] by (simp add: a)
  next
    case False
    let ?st' = "st\<lparr>sp_counter := sp_counter st + 1,
              sp_tracks :=
                dict_set (sp_counter st + 1)
                  \<lparr>position = p, entry_time = clk (sp_clock st),
                   last_seen = clk (Suc (sp_clock st))\<rparr>
                  (sp_tracks st),
              sp_clock := sp_clock st + 2,
              sp_created := sp_created st @ [(idx, sp_counter st + 1)]\<rparr>"
    have eq: "new_tracks clk M (a # cc) st = new_tracks clk M cc ?st'"
      using False by (simp add: a)
    have le: "sp_counter st + 1 \<le> sp_counter (new_tracks clk M cc ?st')"
      by (simp add: new_tracks_counter)
    show ?thesis
      unfolding eq using Cons.IH [of ?st'] upto_snoc_front [OF le] by simp
  qed
qed

lemma new_tracks_keys:
  "\<forall>k \<in> set (dict_keys (sp_tracks st)). k \<le> sp_counter st \<Longrightarrow>
   dict_keys (sp_tracks (new_tracks clk M cc st))
     = dict_keys (sp_tracks st) @ [sp_counter st + 1..sp_counter (new_tracks clk M cc st)]"
proof (induction cc arbitrary: st)
  case Nil
  then show ?case by simp
next
  case (Cons a cc)
  obtain idx p where a: "a = (idx, p)" by (cases a)
  show ?case
  proof (cases "idx \<in> M")
    case True
    then show ?thesis using Cons.IH [of st] Cons.prems by (simp add: a)
  next
    case False
    let ?st' = "st\<lparr>sp_counter := sp_counter st + 1,
              sp_tracks :=
                dict_set (sp_counter st + 1)
                  \<lparr>position = p, entry_time = clk (sp_clock st),
                   last_seen = clk (Suc (sp_clock st))\<rparr>
                  (sp_tracks st),
              sp_clock := sp_clock st + 2,
              sp_created := sp_created st @ [(idx, sp_counter st + 1)]\<rparr>"
    have eq: "new_tracks clk M (a # cc) st = new_tracks clk M cc ?st'"
      using False by (simp add: a)
    have le: "sp_counter st + 1 \<le> sp_counter (new_tracks clk M cc ?st')"
      by (simp add: new_tracks_counter)
    have fresh: "sp_counter st + 1 \<notin> fst ` set (sp_tracks st)"
      using Cons.prems by (fastforce simp: dict_keys_def)
    have k': "dict_keys (sp_tracks ?st') = dict_keys (sp_tracks st) @ [sp_counter st + 1]"
      using fresh by (simp add: dict_keys_def dict_set_keys)
    have b': "\<forall>k \<in> set (dict_keys (sp_tracks ?st')). k \<le> sp_counter ?st'"
      using Cons.prems unfolding k' by auto
    show ?thesis
      unfolding eq using Cons.IH [OF b'] upto_snoc_front [OF le] k' by simp
  qed
qed

lemma new_tracks_old:
  "k \<le> sp_counter st \<Longrightarrow>
   map_of (sp_tracks (new_tracks clk M cc st)) k = map_of (sp_tracks st) k"
proof (induction cc arbitrary: st)
  case Nil
  then show ?case by simp
next
  case (Cons a cc)
  obtain idx p where a: "a = (idx, p)" by (cases a)
  show ?case
  proof (cases "idx \<in> M")
    case True
    then show ?thesis using Cons.IH [of st] Cons.prems by (simp add: a)
  next
    case False
    let ?st' = "st\<lparr>sp_counter := sp_counter st + 1,
              sp_tracks :=
                dict_set (sp_counter st + 1)
                  \<lparr>position = p, entry_time = clk (sp_clock st),
                   last_seen = clk (Suc (sp_clock st))\<rparr>
                  (sp_tracks st),
              sp_clock := sp_clock st + 2,
              sp_created := sp_created st @ [(idx, sp_counter st + 1)]\<rparr>"
    have eq: "new_tracks clk M (a # cc) st = new_tracks clk M cc ?st'"
      using False by (simp add: a)
    have "map_of (sp_tracks (new_tracks clk M cc ?st')) k = map_of (sp_tracks ?st') k"
      by (rule Cons.IH) (use Cons.prems in simp)
    then show ?thesis unfolding eq using Cons.prems by (simp add: dict_set_map_of)
  qed
qed

lemma new_tracks_positions:
  "set cc \<subseteq> set cc0 \<Longrightarrow>
   \<forall>(i, tid) \<in> set (sp_created st). tid \<le> sp_counter st \<and>
      (\<exists>t. map_of (sp_tracks st) tid = Some t \<and> (i, position t) \<in> set cc0) \<Longrightarrow>
   \<forall>(i, tid) \<in> set (sp_created (new_tracks clk M cc st)).
      \<exists>t. map_of (sp_tracks (new_tracks clk M cc st)) tid = Some t \<and> (i, position t) \<in> set cc0"
proof (induction cc arbitrary: st)
  case Nil
  then show ?case by auto
next
  case (Cons a cc)
  obtain idx p where a: "a = (idx, p)" by (cases a)
  have sub: "set cc \<subseteq> set cc0" and here: "(idx, p) \<in> set cc0"
    using Cons.prems(1) by (auto simp: a)
  show ?case
  proof (cases "idx \<in> M")
    case True
    then show ?thesis using Cons.IH [OF sub Cons.prems(2)] by (simp add: a)
  next
    case False
    let ?st' = "st\<lparr>sp_counter := sp_counter st + 1,
              sp_tracks :=
                dict_set (sp_counter st + 1)
                  \<lparr>position = p, entry_time = clk (sp_clock st),
                   last_seen = clk (Suc (sp_clock st))\<rparr>
                  (sp_tracks st),
              sp_clock := sp_clock st + 2,
              sp_created := sp_created st @ [(idx, sp_counter st + 1)]\<rparr>"
    have eq: "new_tracks clk M (a # cc) st = new_tracks clk M cc ?st'"
      using False by (simp add: a)
    have inv': "\<forall>(i, tid) \<in> set (sp_created ?st'). tid \<le> sp_counter ?st' \<and>
      (\<exists>t. map_of (sp_tracks ?st') tid = Some t \<and> (i, position t) \<in> set cc0)"
      using Cons.prems(2) here by (fastforce simp: dict_set_map_of)
    show ?thesis unfolding eq by (rule Cons.IH [OF sub inv'])
  qed
qed

section \<open>One call of the tracker\<close>

lemma match_start_inv: "distinct (dict_keys trs) \<Longrightarrow> match_inv cc (dict_keys trs) (match_start trs k)"
  by (simp add: match_inv_def match_start_def dict_keys_def)

lemma enumerate_member:
  "(i, q) \<in> set (enumerate 0 (map f xs)) \<Longrightarrow> i < length xs \<and> f (xs ! i) = q"
  by (auto simp: in_set_enumerate_eq)

lemma update_tracks_unfold:
  assumes "distinct (dict_keys trs)"
  shows "update_tracks clk k dets trs counter =
           (let m = match_tracks clk (current_centroids dets) (dict_keys trs) (match_start trs k);
                n = new_tracks clk (ms_matched m) (current_centroids dets)
                      \<lparr>sp_tracks = ms_tracks m, sp_counter = counter, sp_clock = ms_clock m,
                       sp_created = []\<rparr>
            in \<lparr>tu_tracks = sp_tracks n, tu_counter = sp_counter n, tu_clock = sp_clock n,
                tu_assigned = ms_assigned m, tu_created = sp_created n, tu_raised = False\<rparr>)"
proof -
  have "match_inv (current_centroids dets) []
          (match_tracks clk (current_centroids dets) (dict_keys trs) (match_start trs k))"
    by (rule match_tracks_inv [OF match_start_inv [OF assms(1)]])
  then have "\<not> ms_raised
          (match_tracks clk (current_centroids dets) (dict_keys trs) (match_start trs k))"
    by (simp add: match_inv_def)
  then show ?thesis
    by (simp add: update_tracks_def Let_def match_start_def)
qed

lemma update_tracks_facts:
  assumes wf: "tracks_wf trs counter"
    and u: "u = update_tracks clk k dets trs counter"
  shows "\<not> tu_raised u"
    and "distinct (map snd (tu_assigned u))"
    and "distinct (map fst (tu_assigned u))"
    and "set (map fst (tu_assigned u)) \<subseteq> set (dict_keys trs)"
    and "map fst (tu_created u)
           = filter (\<lambda>i. i \<notin> snd ` set (tu_assigned u)) [0..<length dets]"
    and "map snd (tu_created u) = [counter + 1..tu_counter u]"
    and "dict_keys (tu_tracks u) = map fst (tu_assigned u) @ map snd (tu_created u)"
    and "\<forall>(tid, i) \<in> set (tu_assigned u). i < length dets \<and>
           (\<exists>t. map_of (tu_tracks u) tid = Some t \<and> position t = centroid (dets ! i))"
    and "\<forall>(i, tid) \<in> set (tu_created u). i < length dets \<and>
           (\<exists>t. map_of (tu_tracks u) tid = Some t \<and> position t = centroid (dets ! i))"
proof -
  let ?cc = "current_centroids dets"
  define m where "m = match_tracks clk ?cc (dict_keys trs) (match_start trs k)"
  define s0 where "s0 = \<lparr>sp_tracks = ms_tracks m, sp_counter = counter, sp_clock = ms_clock m,
                   sp_created = []\<rparr>"
  define n where "n = new_tracks clk (ms_matched m) ?cc s0"
  have dk: "distinct (dict_keys trs)" and le: "\<forall>k \<in> set (dict_keys trs). k \<le> counter"
    using wf by (simp_all add: tracks_wf_def list_all_iff)
  have ueq: "u = \<lparr>tu_tracks = sp_tracks n, tu_counter = sp_counter n, tu_clock = sp_clock n,
            tu_assigned = ms_assigned m, tu_created = sp_created n, tu_raised = False\<rparr>"
    unfolding u n_def s0_def m_def using update_tracks_unfold [OF dk] by (simp add: Let_def)
  have inv: "match_inv ?cc [] m"
    unfolding m_def by (rule match_tracks_inv [OF match_start_inv [OF dk]])
  have mk: "dict_keys (ms_tracks m) = map fst (ms_assigned m)"
    and md: "distinct (dict_keys (ms_tracks m))"
    and mm: "snd ` set (ms_assigned m) = ms_matched m"
    and ms: "distinct (map snd (ms_assigned m))"
    and mp: "\<forall>(tid, i) \<in> set (ms_assigned m).
        \<exists>t. map_of (ms_tracks m) tid = Some t \<and> map_of ?cc i = Some (position t)"
    using inv unfolding match_inv_def append_Nil2 by blast+
  have sub: "set (dict_keys (ms_tracks m)) \<subseteq> set (dict_keys trs)"
    using match_tracks_keys_subset [of clk ?cc "dict_keys trs" "match_start trs k"]
    by (simp add: m_def match_start_def)
  have le0: "\<forall>k \<in> set (dict_keys (sp_tracks s0)). k \<le> sp_counter s0"
    using sub le by (auto simp: s0_def)
  show "\<not> tu_raised u" by (simp add: ueq)
  show "distinct (map snd (tu_assigned u))" using ms by (simp add: ueq)
  show "distinct (map fst (tu_assigned u))" using md mk by (simp add: ueq)
  show "set (map fst (tu_assigned u)) \<subseteq> set (dict_keys trs)" using sub mk by (simp add: ueq)
  show "map fst (tu_created u)
           = filter (\<lambda>i. i \<notin> snd ` set (tu_assigned u)) [0..<length dets]"
    using new_tracks_created_fst [of clk "ms_matched m" ?cc s0]
    by (simp add: ueq n_def s0_def unmatched_def mm current_centroids_enumerate
        map_fst_enumerate)
  show "map snd (tu_created u) = [counter + 1..tu_counter u]"
    using new_tracks_created_snd [of clk "ms_matched m" ?cc s0]
    by (simp add: ueq n_def s0_def)
  show "dict_keys (tu_tracks u) = map fst (tu_assigned u) @ map snd (tu_created u)"
    using new_tracks_keys [OF le0, of clk "ms_matched m" ?cc]
      new_tracks_created_snd [of clk "ms_matched m" ?cc s0] mk
    by (simp add: ueq n_def s0_def)
  show "\<forall>(tid, i) \<in> set (tu_assigned u). i < length dets \<and>
           (\<exists>t. map_of (tu_tracks u) tid = Some t \<and> position t = centroid (dets ! i))"
  proof (clarify)
    fix tid i assume a: "(tid, i) \<in> set (tu_assigned u)"
    then have am: "(tid, i) \<in> set (ms_assigned m)" by (simp add: ueq)
    then obtain t where t: "map_of (ms_tracks m) tid = Some t"
      and c: "map_of ?cc i = Some (position t)" using mp by blast
    have "tid \<in> set (dict_keys (ms_tracks m))" using am mk by force
    then have "tid \<le> sp_counter s0" using le0 by (simp add: s0_def)
    then have "map_of (sp_tracks n) tid = Some t"
      using new_tracks_old [of tid s0 clk "ms_matched m" ?cc] t by (simp add: n_def s0_def)
    moreover have "i < length dets \<and> centroid (dets ! i) = position t"
      using enumerate_member [of i "position t" centroid dets] map_of_SomeD [OF c]
      by (simp add: current_centroids_enumerate)
    ultimately show "i < length dets \<and>
           (\<exists>t. map_of (tu_tracks u) tid = Some t \<and> position t = centroid (dets ! i))"
      by (simp add: ueq)
  qed
  show "\<forall>(i, tid) \<in> set (tu_created u). i < length dets \<and>
           (\<exists>t. map_of (tu_tracks u) tid = Some t \<and> position t = centroid (dets ! i))"
  proof (clarify)
    fix tid i assume a: "(i, tid) \<in> set (tu_created u)"
    then have an: "(i, tid) \<in> set (sp_created n)" by (simp add: ueq)
    have "\<forall>(i, tid) \<in> set (sp_created (new_tracks clk (ms_matched m) ?cc s0)).
      \<exists>t. map_of (sp_tracks (new_tracks clk (ms_matched m) ?cc s0)) tid = Some t
          \<and> (i, position t) \<in> set ?cc"
      by (rule new_tracks_positions) (simp_all add: s0_def)
    then obtain t where t: "map_of (sp_tracks n) tid = Some t"
      and c: "(i, position t) \<in> set ?cc" using an unfolding n_def by blast
    have "i < length dets \<and> centroid (dets ! i) = position t"
      using enumerate_member [of i "position t" centroid dets] c
      by (simp add: current_centroids_enumerate)
    then show "i < length dets \<and>
           (\<exists>t. map_of (tu_tracks u) tid = Some t \<and> position t = centroid (dets ! i))"
      using t by (simp add: ueq)
  qed
qed

section \<open>The invariant of the module\<close>

lemma update_tracks_counter_le:
  "counter \<le> tu_counter (update_tracks clk k dets trs counter)"
  by (simp add: update_tracks_def Let_def new_tracks_counter)

lemma update_tracks_wf:
  assumes wf: "tracks_wf trs counter"
  shows "tracks_wf (tu_tracks (update_tracks clk k dets trs counter))
           (tu_counter (update_tracks clk k dets trs counter))"
    and "counter \<le> tu_counter (update_tracks clk k dets trs counter)"
proof -
  define u where "u = update_tracks clk k dets trs counter"
  note f = update_tracks_facts [OF wf u_def]
  have dk: "distinct (dict_keys trs)" and le: "\<forall>k \<in> set (dict_keys trs). k \<le> counter"
    using wf by (simp_all add: tracks_wf_def list_all_iff)
  show c: "counter \<le> tu_counter (update_tracks clk k dets trs counter)"
    by (rule update_tracks_counter_le)
  have a_le: "\<forall>k \<in> set (map fst (tu_assigned u)). k \<le> counter"
    using f(4) le by blast
  have "distinct (dict_keys (tu_tracks u))"
    unfolding f(7) f(6) using f(3) a_le by (auto simp: distinct_upto)
  moreover have "\<forall>k \<in> set (dict_keys (tu_tracks u)). k \<le> tu_counter u"
    unfolding f(7) f(6) using a_le c by (auto simp: u_def)
  ultimately show "tracks_wf (tu_tracks (update_tracks clk k dets trs counter))
           (tu_counter (update_tracks clk k dets trs counter))"
    by (simp add: tracks_wf_def list_all_iff u_def)
qed

lemma update_tracks_part:
  "person_tracks (fst (update lib clk dets fr s)) =
     (if enable_counting s then tu_tracks (tracks_step clk dets s) else person_tracks s)"
  "track_counter (fst (update lib clk dets fr s)) =
     (if enable_counting s then tu_counter (tracks_step clk dets s) else track_counter s)"
  "enable_counting (fst (update lib clk dets fr s)) = enable_counting s"
  "enable_heatmap (fst (update lib clk dets fr s)) = enable_heatmap s"
  "heatmap_resolution (fst (update lib clk dets fr s)) = heatmap_resolution s"
  by (simp_all add: update_def Let_def update_heatmap_def tracks_step_def)

lemma update_inv: "analytics_inv s \<Longrightarrow> analytics_inv (fst (update lib clk dets fr s))"
  using update_tracks_wf(1) [of "person_tracks s" "track_counter s" clk 0 dets]
  by (auto simp: analytics_inv_def update_tracks_part tracks_step_def)

lemma reset_inv:
  "analytics_inv s \<Longrightarrow> analytics_inv (reset_heatmap s)"
  "analytics_inv (reset_statistics s)"
  by (simp_all add: analytics_inv_def reset_heatmap_def reset_statistics_def tracks_wf_def
      dict_keys_def)

lemma apply_op_inv: "analytics_inv s \<Longrightarrow> analytics_inv (apply_op lib s op)"
  by (cases op) (simp_all add: update_inv reset_inv)

lemma init_inv: "analytics_inv (analytics_init cfg)"
  by (simp add: analytics_inv_def analytics_init_def tracks_wf_def dict_keys_def)

lemma run_inv_from: "analytics_inv s \<Longrightarrow> analytics_inv (run lib s ops)"
  unfolding run_def by (induction ops arbitrary: s) (simp_all add: apply_op_inv)

lemma run_inv: "analytics_inv (run lib (analytics_init cfg) ops)"
  by (rule run_inv_from [OF init_inv])

lemma run_wf:
  "tracks_wf (person_tracks (run lib (analytics_init cfg) ops))
     (track_counter (run lib (analytics_init cfg) ops))"
  using run_inv [of lib cfg ops] by (simp add: analytics_inv_def)

lemma centroids2: "current_centroids [a, b] = [(0, centroid a), (1, centroid b)]"
  by (simp add: current_centroids_def)

lemma centroids1: "current_centroids [c] = [(0, centroid c)]"
  by (simp add: current_centroids_def)

lemma scenario_first:
  "update_tracks clk k [a, b] [] 0 =
     \<lparr>tu_tracks = [(1, \<lparr>position = centroid a, entry_time = clk k, last_seen = clk (Suc k)\<rparr>),
                   (2, \<lparr>position = centroid b, entry_time = clk (k + 2),
                        last_seen = clk (Suc (k + 2))\<rparr>)],
      tu_counter = 2, tu_clock = k + 4, tu_assigned = [], tu_created = [(0, 1), (1, 2)],
      tu_raised = False\<rparr>"
  by (simp add: update_tracks_def centroids2 match_start_def dict_keys_def)

lemma scenario_second:
  assumes "pa = (100, 100)" "pb = (500, 500)" "centroid c = (105, 102)"
  shows "update_tracks clk k [c]
       [(1, \<lparr>position = pa, entry_time = e1, last_seen = l1\<rparr>),
        (2, \<lparr>position = pb, entry_time = e2, last_seen = l2\<rparr>)] 2 =
     \<lparr>tu_tracks = [(1, \<lparr>position = (105, 102), entry_time = e1, last_seen = clk k\<rparr>)],
      tu_counter = 2, tu_clock = Suc k, tu_assigned = [(1, 0)], tu_created = [],
      tu_raised = False\<rparr>"
  by (simp add: update_tracks_def centroids1 match_start_def dict_keys_def dict_del_def
      find_closest_def dist2_def assms)

lemma update_active:
  "active_tracks (snd (update lib clk dets fr s)) =
     length (person_tracks (fst (update lib clk dets fr s)))"
  "people_count (snd (update lib clk dets fr s)) = length dets"
  by (simp_all add: update_def Let_def)

lemma sqrt_dist_less_50: "euclid p q < 50 \<longleftrightarrow> dist2 p q < 2500"
proof -
  have "sqrt 2500 = 50" by (rule real_sqrt_unique) simp_all
  then have "euclid p q < 50 \<longleftrightarrow> sqrt (real_of_int (dist2 p q)) < sqrt 2500"
    by (simp add: euclid_def)
  also have "\<dots> \<longleftrightarrow> dist2 p q < 2500" by (simp only: real_sqrt_less_iff) linarith
  finally show ?thesis .
qed

lemma sqrt_dist_less: "euclid p q < euclid p' q' \<longleftrightarrow> dist2 p q < dist2 p' q'"
  by (simp add: euclid_def)

lemma match_tracks_append:
  "match_inv cc (pre @ rest) st \<Longrightarrow>
   match_tracks clk cc (pre @ rest) st = match_tracks clk cc rest (match_tracks clk cc pre st)
   \<and> match_inv cc rest (match_tracks clk cc pre st)"
proof (induction pre arbitrary: st)
  case Nil
  then show ?case by simp
next
  case (Cons x pre)
  have inv: "match_inv cc (x # (pre @ rest)) st" using Cons.prems by simp
  obtain t where t: "map_of (ms_tracks st) x = Some t"
    using match_inv_lookup [OF inv] by blast
  show ?case
  proof (cases "find_closest (ms_matched st) (position t) cc")
    case None
    then show ?thesis
      using t Cons.IH [OF match_inv_delete [OF inv]] by simp
  next
    case (Some idx)
    obtain p where p: "map_of cc idx = Some p" using find_closest_lookup [OF Some] by blast
    show ?thesis
      using t Some p Cons.IH [OF match_inv_assign [OF inv t Some p]] by simp
  qed
qed

lemma match_tracks_untouched:
  "k \<notin> set pre \<Longrightarrow>
   map_of (ms_tracks (match_tracks clk cc pre st)) k = map_of (ms_tracks st) k"
proof (induction pre arbitrary: st)
  case Nil
  then show ?case by simp
next
  case (Cons x pre)
  have kx: "k \<noteq> x" and kp: "k \<notin> set pre" using Cons.prems by auto
  show ?case
    using Cons.IH [OF kp] kx
    by (auto simp: dict_set_map_of dict_del_map_of split: option.splits)
qed

lemma split_at_key:
  "x \<in> set xs \<Longrightarrow>
   xs = takeWhile (\<lambda>y. y \<noteq> x) xs @ x # tl (dropWhile (\<lambda>y. y \<noteq> x) xs)"
  by (induction xs) auto

lemma find_closest_None:
  assumes "\<forall>i < length dets. i \<notin> M \<longrightarrow> \<not> dist2 (centroid (dets ! i)) p < 2500"
  shows "find_closest M p (current_centroids dets) = None"
proof (rule ccontr)
  assume "find_closest M p (current_centroids dets) \<noteq> None"
  then obtain i where "find_closest M p (current_centroids dets) = Some i" by blast
  from find_closest_Some [OF this] obtain q
    where "i \<notin> M" "(i, q) \<in> set (current_centroids dets)" "dist2 q p < 2500" by blast
  then show False
    using assms enumerate_member [of i q centroid dets]
    by (auto simp: current_centroids_enumerate)
qed

lemma match_tracks_evicts:
  assumes dk: "distinct (dict_keys trs)"
    and mem: "(tid, t) \<in> set trs"
    and far: "\<forall>i < length dets. i \<notin> matched_before clk k dets trs tid
                \<longrightarrow> \<not> dist2 (centroid (dets ! i)) (position t) < 2500"
  shows "tid \<notin> set (dict_keys (ms_tracks
           (match_tracks clk (current_centroids dets) (dict_keys trs) (match_start trs k))))"
proof -
  let ?cc = "current_centroids dets"
  let ?pre = "takeWhile (\<lambda>y. y \<noteq> tid) (dict_keys trs)"
  let ?post = "tl (dropWhile (\<lambda>y. y \<noteq> tid) (dict_keys trs))"
  define m1 where "m1 = match_tracks clk ?cc ?pre (match_start trs k)"
  have tin: "tid \<in> set (dict_keys trs)" using mem by (force simp: dict_keys_def)
  have keys: "dict_keys trs = ?pre @ tid # ?post" by (rule split_at_key [OF tin])
  have inv0: "match_inv ?cc (?pre @ tid # ?post) (match_start trs k)"
    using match_start_inv [OF dk, of ?cc k] keys by simp
  from match_tracks_append [OF inv0, of clk]
  have eq: "match_tracks clk ?cc (dict_keys trs) (match_start trs k)
              = match_tracks clk ?cc (tid # ?post) m1"
    and inv1: "match_inv ?cc (tid # ?post) m1"
    using keys by (simp_all add: m1_def)
  have "tid \<notin> set ?pre" by (auto dest: set_takeWhileD)
  then have "map_of (ms_tracks m1) tid = map_of trs tid"
    unfolding m1_def by (simp add: match_tracks_untouched match_start_def)
  also have "\<dots> = Some t"
    using dk mem by (simp add: dict_keys_def)
  finally have lk: "map_of (ms_tracks m1) tid = Some t" .
  have "ms_matched m1 = matched_before clk k dets trs tid"
    by (simp add: m1_def matched_before_def)
  then have none: "find_closest (ms_matched m1) (position t) ?cc = None"
    using far by (simp add: find_closest_None)
  have "match_tracks clk ?cc (tid # ?post) m1
          = match_tracks clk ?cc ?post (m1\<lparr>ms_tracks := dict_del tid (ms_tracks m1)\<rparr>)"
    using lk none by simp
  moreover have "tid \<notin> set (dict_keys (ms_tracks (m1\<lparr>ms_tracks := dict_del tid (ms_tracks m1)\<rparr>)))"
    by (simp add: dict_keys_def dict_del_keys)
  ultimately show ?thesis
    unfolding eq
    using match_tracks_keys_subset
      [of clk ?cc ?post "m1\<lparr>ms_tracks := dict_del tid (ms_tracks m1)\<rparr>"]
    by auto
qed

lemma update_tracks_evicts:
  assumes wf: "tracks_wf trs counter"
    and mem: "(tid, t) \<in> set trs"
    and far: "\<forall>i < length dets. i \<notin> matched_before clk k dets trs tid
                \<longrightarrow> \<not> dist2 (centroid (dets ! i)) (position t) < 2500"
  shows "tid \<notin> set (dict_keys (tu_tracks (update_tracks clk k dets trs counter)))"
proof -
  let ?cc = "current_centroids dets"
  define m where "m = match_tracks clk ?cc (dict_keys trs) (match_start trs k)"
  define s0 where "s0 = \<lparr>sp_tracks = ms_tracks m, sp_counter = counter, sp_clock = ms_clock m,
                   sp_created = []\<rparr>"
  have dk: "distinct (dict_keys trs)" and le: "\<forall>k \<in> set (dict_keys trs). k \<le> counter"
    using wf by (simp_all add: tracks_wf_def list_all_iff)
  have ueq: "tu_tracks (update_tracks clk k dets trs counter)
               = sp_tracks (new_tracks clk (ms_matched m) ?cc s0)"
    using update_tracks_unfold [OF dk, of clk k dets counter]
    by (simp add: Let_def m_def s0_def)
  have sub: "set (dict_keys (ms_tracks m)) \<subseteq> set (dict_keys trs)"
    using match_tracks_keys_subset [of clk ?cc "dict_keys trs" "match_start trs k"]
    by (simp add: m_def match_start_def)
  have le0: "\<forall>k \<in> set (dict_keys (sp_tracks s0)). k \<le> sp_counter s0"
    using sub le by (auto simp: s0_def)
  have gone: "tid \<notin> set (dict_keys (ms_tracks m))"
    unfolding m_def by (rule match_tracks_evicts [OF dk mem far])
  have "tid \<le> counter" using le mem by (force simp: dict_keys_def)
  then show ?thesis
    unfolding ueq new_tracks_keys [OF le0] using gone by (simp add: s0_def)
qed

lemma first_update:
  assumes "cfg_enable_people_counting cfg"
  shows "person_tracks (run lib (analytics_init cfg) [Update clk [a, b] fr]) =
           [(1, \<lparr>position = centroid a, entry_time = clk 0, last_seen = clk 1\<rparr>),
            (2, \<lparr>position = centroid b, entry_time = clk 2, last_seen = clk 3\<rparr>)]"
    and "track_counter (run lib (analytics_init cfg) [Update clk [a, b] fr]) = 2"
    and "enable_counting (run lib (analytics_init cfg) [Update clk [a, b] fr])"
proof -
  have e0: "enable_counting (analytics_init cfg)" "person_tracks (analytics_init cfg) = []"
    "track_counter (analytics_init cfg) = 0"
    using assms by (simp_all add: analytics_init_def)
  show "person_tracks (run lib (analytics_init cfg) [Update clk [a, b] fr]) =
           [(1, \<lparr>position = centroid a, entry_time = clk 0, last_seen = clk 1\<rparr>),
            (2, \<lparr>position = centroid b, entry_time = clk 2, last_seen = clk 3\<rparr>)]"
    and "track_counter (run lib (analytics_init cfg) [Update clk [a, b] fr]) = 2"
    and "enable_counting (run lib (analytics_init cfg) [Update clk [a, b] fr])"
    by (simp_all add: run_def update_tracks_part e0 tracks_step_def scenario_first
        numeral_2_eq_2 numeral_3_eq_3)
qed

lemma sample_centroids:
  "centroid (box_at x y) = (x, y)"
  by (simp add: centroid_def box_at_def)

lemma sample_step:
  "update_tracks clk k [box_at 105 102, box_at 300 300]
       [(1, \<lparr>position = (100, 100), entry_time = e1, last_seen = l1\<rparr>),
        (2, \<lparr>position = (500, 500), entry_time = e2, last_seen = l2\<rparr>)] 2 =
     \<lparr>tu_tracks = [(1, \<lparr>position = (105, 102), entry_time = e1, last_seen = clk k\<rparr>),
                   (3, \<lparr>position = (300, 300), entry_time = clk (Suc k),
                        last_seen = clk (Suc (Suc k))\<rparr>)],
      tu_counter = 3, tu_clock = Suc k + 2, tu_assigned = [(1, 0)], tu_created = [(1, 3)],
      tu_raised = False\<rparr>"
  by (simp add: update_tracks_def current_centroids_def sample_centroids match_start_def
      dict_keys_def dict_del_def find_closest_def dist2_def)

section \<open>Identifiers, dwell time, heatmap, statistics, status and alerts: lemmas\<close>

lemma update_tracks_created_ids:
  "map snd (tu_created (update_tracks clk k dets trs counter))
     = [counter + 1..tu_counter (update_tracks clk k dets trs counter)]"
  using new_tracks_created_snd
    [of clk "ms_matched (match_tracks clk (current_centroids dets) (dict_keys trs) (match_start trs k))"
        "current_centroids dets"
        "\<lparr>sp_tracks = ms_tracks (match_tracks clk (current_centroids dets) (dict_keys trs) (match_start trs k)),
          sp_counter = counter,
          sp_clock = ms_clock (match_tracks clk (current_centroids dets) (dict_keys trs) (match_start trs k)),
          sp_created = []\<rparr>"]
  by (simp add: update_tracks_def Let_def)

lemma strict_sorted_upto: "sorted_wrt (<) [i..j::int]"
  by (simp add: strict_sorted_iff)

lemma issued_above:
  "ResetStatistics \<notin> set ops \<Longrightarrow>
   sorted_wrt (<) (issued lib s ops) \<and> (\<forall>x \<in> set (issued lib s ops). track_counter s < x)"
proof (induction ops arbitrary: s)
  case Nil
  then show ?case by simp
next
  case (Cons op ops)
  have rest: "ResetStatistics \<notin> set ops" using Cons.prems by simp
  show ?case
  proof (cases op)
    case (Update clk dets fr)
    let ?s' = "apply_op lib s (Update clk dets fr)"
    let ?new = "(if enable_counting s then map snd (tu_created (tracks_step clk dets s)) else [])"
    have ih: "sorted_wrt (<) (issued lib ?s' ops)"
      "\<forall>x \<in> set (issued lib ?s' ops). track_counter ?s' < x"
      using Cons.IH [OF rest, of ?s'] by simp_all
    have c': "track_counter ?s' =
        (if enable_counting s then tu_counter (tracks_step clk dets s) else track_counter s)"
      by (simp add: update_tracks_part)
    have le: "track_counter s \<le> track_counter ?s'"
      unfolding c' by (simp add: tracks_step_def update_tracks_counter_le)
    have new: "sorted_wrt (<) ?new" "\<forall>x \<in> set ?new. track_counter s < x \<and> x \<le> track_counter ?s'"
      unfolding c' by (auto simp: tracks_step_def update_tracks_created_ids strict_sorted_upto)
    have "sorted_wrt (<) (?new @ issued lib ?s' ops)"
      unfolding sorted_wrt_append using new ih by fastforce
    moreover have "\<forall>x \<in> set (?new @ issued lib ?s' ops). track_counter s < x"
      using new(2) ih(2) le by fastforce
    ultimately show ?thesis unfolding Update by simp
  next
    case ResetHeatmap
    then show ?thesis using Cons.IH [OF rest, of "reset_heatmap s"]
      by (simp add: reset_heatmap_def)
  next
    case ResetStatistics
    then show ?thesis using Cons.prems by simp
  qed
qed

lemma single_update:
  "update_tracks clk k [a] [] 0 =
     \<lparr>tu_tracks = [(1, \<lparr>position = centroid a, entry_time = clk k, last_seen = clk (Suc k)\<rparr>)],
      tu_counter = 1, tu_clock = k + 2, tu_assigned = [], tu_created = [(0, 1)],
      tu_raised = False\<rparr>"
  by (simp add: update_tracks_def current_centroids_def match_start_def dict_keys_def)

lemma issued_after_reset:
  assumes "cfg_enable_people_counting cfg"
  shows "issued lib (analytics_init cfg)
           [Update clk [a] fr, ResetStatistics, Update clk' [b] fr'] = [1, 1]"
proof -
  have e0: "enable_counting (analytics_init cfg)" "person_tracks (analytics_init cfg) = []"
    "track_counter (analytics_init cfg) = 0"
    using assms by (simp_all add: analytics_init_def)
  define s1 where "s1 = fst (update lib clk [a] fr (analytics_init cfg))"
  have e1: "enable_counting s1" unfolding s1_def by (simp add: update_tracks_part e0)
  have e2: "enable_counting (reset_statistics s1)" "person_tracks (reset_statistics s1) = []"
    "track_counter (reset_statistics s1) = 0"
    using e1 by (simp_all add: reset_statistics_def)
  show ?thesis
    by (simp add: s1_def [symmetric] e0 e2 tracks_step_def single_update)
qed

lemma dwell_sum_over_keys:
  assumes "distinct (map fst trs)"
  shows "sum_list (map (\<lambda>t. now - entry_time t) (map snd trs))
           = (\<Sum>tid \<in> set (map fst trs). now - entry_time (the (map_of trs tid)))"
proof -
  have "\<forall>x \<in> set trs. snd x = the (map_of trs (fst x))"
    using assms by auto
  then have "map (\<lambda>t. now - entry_time t) (map snd trs)
          = map (\<lambda>tid. now - entry_time (the (map_of trs tid))) (map fst trs)"
    by simp
  also have "sum_list \<dots> = (\<Sum>tid \<in> set (map fst trs). now - entry_time (the (map_of trs tid)))"
    by (rule sum_list_distinct_conv_sum_set [OF assms])
  finally show ?thesis .
qed

lemma heatmap_loop_binary:
  "binary hm \<Longrightarrow> binary (heatmap_loop lib fs res hm dets)"
proof (induction dets arbitrary: hm)
  case Nil
  then show ?case by simp
next
  case (Cons d ds)
  have "binary (cv2_circle (nm_circle lib) res hm (heatmap_point (nm_scale lib) fs res d) 10 1)"
    using Cons.prems unfolding binary_def cv2_circle_def by auto
  then show ?case using Cons.IH Cons.prems by simp
qed

lemma heatmap_loop_mono:
  "binary hm \<Longrightarrow> hm cell \<le> heatmap_loop lib fs res hm dets cell"
proof (induction dets arbitrary: hm)
  case Nil
  then show ?case by simp
next
  case (Cons d ds)
  let ?hm' = "cv2_circle (nm_circle lib) res hm (heatmap_point (nm_scale lib) fs res d) 10 1"
  have b: "binary ?hm'"
    using Cons.prems unfolding binary_def cv2_circle_def by auto
  have "hm cell \<le> ?hm' cell"
    using Cons.prems [unfolded binary_def, rule_format, of cell] by (auto simp: cv2_circle_def)
  then show ?case using Cons.IH [OF b] by (auto intro: order_trans)
qed

lemma binary_zero: "binary (\<lambda>cell. 0)"
  by (simp add: binary_def)

lemma update_heatmap_part:
  "heatmap (fst (update lib clk dets fr s)) =
     (if enable_heatmap s then heatmap_loop lib fr (heatmap_resolution s) (heatmap s) dets
      else heatmap s)"
  by (simp add: update_def Let_def update_heatmap_def tracks_step_def)

lemma update_binary: "binary (heatmap s) \<Longrightarrow> binary (heatmap (fst (update lib clk dets fr s)))"
  by (simp add: update_heatmap_part heatmap_loop_binary)

lemma apply_op_binary: "binary (heatmap s) \<Longrightarrow> binary (heatmap (apply_op lib s op))"
  by (cases op) (simp_all add: update_binary reset_heatmap_def reset_statistics_def binary_zero)

lemma run_binary_from: "binary (heatmap s) \<Longrightarrow> binary (heatmap (run lib s ops))"
  unfolding run_def by (induction ops arbitrary: s) (simp_all add: apply_op_binary)

lemma run_binary: "binary (heatmap (run lib (analytics_init cfg) ops))"
  by (rule run_binary_from) (simp add: binary_zero analytics_init_def)

lemma run_mono_from:
  "binary (heatmap s) \<Longrightarrow> ResetHeatmap \<notin> set ops \<Longrightarrow>
   heatmap s cell \<le> heatmap (run lib s ops) cell"
proof (induction ops arbitrary: s)
  case Nil
  then show ?case by (simp add: run_def)
next
  case (Cons op ops)
  have rest: "ResetHeatmap \<notin> set ops" and here: "op \<noteq> ResetHeatmap"
    using Cons.prems(2) by auto
  have b: "binary (heatmap (apply_op lib s op))"
    by (rule apply_op_binary [OF Cons.prems(1)])
  have "heatmap s cell \<le> heatmap (apply_op lib s op) cell"
    using here Cons.prems(1)
    by (cases op) (simp_all add: update_heatmap_part heatmap_loop_mono reset_statistics_def)
  also have "\<dots> \<le> heatmap (run lib (apply_op lib s op) ops) cell"
    by (rule Cons.IH [OF b rest])
  finally show ?case by (simp add: run_def)
qed

lemma sample_heatmap_point:
  "heatmap_point sample_scale (480, 640) (640, 480) (box_at 100 100) = (75, 133)"
proof -
  have "\<lfloor>400 / 3 :: rat\<rfloor> = 133" by (rule floor_unique) simp_all
  then show ?thesis by (simp add: box_at_def py_int_def sample_scale_def)
qed

lemma update_history:
  "people_count_history (fst (update lib clk dets fr s)) =
     dict_set ((frame_count s + 1) div 30) (length dets) (people_count_history s)"
  "frame_count (fst (update lib clk dets fr s)) = frame_count s + 1"
  by (simp_all add: update_def Let_def update_heatmap_def tracks_step_def)

lemma get_fps_effect:
  "fps_counter (snd (get_fps t_read t_reset app)) =
     (if t_read - last_fps_time app > 1 then 0 else fps_counter app)"
  "last_fps_time (snd (get_fps t_read t_reset app)) =
     (if t_read - last_fps_time app > 1 then t_reset else last_fps_time app)"
  "running (snd (get_fps t_read t_reset app)) = running app"
  by (simp_all add: get_fps_def Let_def)

lemma status_route_effect: "snd (status_route t_read t_reset app) = snd (get_fps t_read t_reset app)"
  by (simp add: status_route_def Let_def split: prod.splits)

lemma process_frame_effect:
  "fps_counter (process_frame lib inp app) =
     (if fi_fps_read inp - last_fps_time app > 1 then 0 else fps_counter app) + 1"
  "last_fps_time (process_frame lib inp app) =
     (if fi_fps_read inp - last_fps_time app > 1 then fi_fps_reset inp else last_fps_time app)"
  "running (process_frame lib inp app) = running app"
  by (simp_all add: process_frame_def Let_def get_fps_effect)

lemma pipeline_step_effect:
  "fps_counter (pipeline_step lib app op) =
     (case op of
        ProcessFrame inp \<Rightarrow>
          (if running app
           then (if fi_fps_read inp - last_fps_time app > 1 then 0 else fps_counter app) + 1
           else fps_counter app)
      | StatusRead t_read t_reset \<Rightarrow>
          (if t_read - last_fps_time app > 1 then 0 else fps_counter app))"
  "running (pipeline_step lib app op) = running app"
  by (cases op; simp add: process_frame_effect status_route_effect get_fps_effect)+

lemma pipeline_step_open:
  assumes "op_read_time op - last_fps_time app \<le> 1"
  shows "fps_counter app \<le> fps_counter (pipeline_step lib app op)"
    and "\<not> running app \<Longrightarrow> fps_counter (pipeline_step lib app op) = fps_counter app"
    and "last_fps_time (pipeline_step lib app op) = last_fps_time app"
  using assms
  by (cases op; simp add: process_frame_effect status_route_effect get_fps_effect)+

lemma pipeline_run_open:
  "window_open app ops \<Longrightarrow>
   fps_counter app \<le> fps_counter (foldl (pipeline_step lib) app ops) \<and>
   (\<not> running app \<longrightarrow> fps_counter (foldl (pipeline_step lib) app ops) = fps_counter app)"
proof (induction ops arbitrary: app)
  case Nil
  then show ?case by simp
next
  case (Cons op ops)
  have h: "op_read_time op - last_fps_time app \<le> 1" and r: "window_open app ops"
    using Cons.prems by simp_all
  note st = pipeline_step_open [OF h, of lib]
  have "window_open (pipeline_step lib app op) ops"
    using r st(3) by (induction ops) simp_all
  from Cons.IH [OF this] show ?case
    using st(1,2) by (auto simp: pipeline_step_effect(2))
qed

lemma two_frames:
  "fps_counter (foldl (pipeline_step lib) (start (camera_app_init sec cfg 0))
      [ProcessFrame (idle_frame (1/4)), ProcessFrame (idle_frame (1/2))]) = 2"
  "last_fps_time (foldl (pipeline_step lib) (start (camera_app_init sec cfg 0))
      [ProcessFrame (idle_frame (1/4)), ProcessFrame (idle_frame (1/2))]) = 0"
  "running (foldl (pipeline_step lib) (start (camera_app_init sec cfg 0))
      [ProcessFrame (idle_frame (1/4)), ProcessFrame (idle_frame (1/2))])"
  by (simp_all add: process_frame_effect start_def camera_app_init_def idle_frame_def)

lemma generate_alert_fields:
  "enable_alerts (generate_alert typ sev d sec) = enable_alerts sec"
  "face_recognition (generate_alert typ sev d sec) = face_recognition sec"
  "known_faces (generate_alert typ sev d sec) = known_faces sec"
  "alert_log (generate_alert typ sev d sec) =
     alert_log sec @
       (if enable_alerts sec then [\<lparr>alert_type = typ, severity = sev, alert_data = d\<rparr>] else [])"
  by (simp_all add: generate_alert_def)

lemma detect_faces_generate_alert:
  "detect_faces (generate_alert typ sev d sec) located = detect_faces sec located"
  by (simp add: detect_faces_def generate_alert_fields split: option.splits)

lemma face_loop_log:
  "alert_log
     (foldl (\<lambda>sc f.
                 if \<not> is_known f
                 then generate_alert ''unknown_face'' ''critical''
                        (FaceData (face_name f) (face_location f)) sc
                 else sc) sec fs)
     = alert_log sec @
        (if enable_alerts sec
         then map (\<lambda>f. \<lparr>alert_type = ''unknown_face'', severity = ''critical'',
                         alert_data = FaceData (face_name f) (face_location f)\<rparr>)
                (filter (\<lambda>f. \<not> is_known f) fs)
         else [])"
proof (induction fs arbitrary: sec)
  case Nil
  then show ?case by simp
next
  case (Cons f fs)
  show ?case
    by (simp add: Cons.IH generate_alert_fields)
qed

lemma detect_faces_names:
  "f \<in> set (detect_faces sec located) \<Longrightarrow> \<not> is_known f \<Longrightarrow> face_name f = ''Unknown''"
  by (auto simp: detect_faces_def Let_def split: if_splits option.splits)

lemma unknown_face_check_log:
  "alert_log (unknown_face_check persons located sec)
     = alert_log sec @
        (if face_recognition sec \<and> persons \<noteq> [] \<and> enable_alerts sec
         then map (\<lambda>f. \<lparr>alert_type = ''unknown_face'', severity = ''critical'',
                         alert_data = FaceData ''Unknown'' (face_location f)\<rparr>)
                (filter (\<lambda>f. \<not> is_known f) (detect_faces sec located))
         else [])"
proof -
  have "map (\<lambda>f. \<lparr>alert_type = ''unknown_face'', severity = ''critical'',
                         alert_data = FaceData (face_name f) (face_location f)\<rparr>)
                (filter (\<lambda>f. \<not> is_known f) (detect_faces sec located))
      = map (\<lambda>f. \<lparr>alert_type = ''unknown_face'', severity = ''critical'',
                         alert_data = FaceData ''Unknown'' (face_location f)\<rparr>)
                (filter (\<lambda>f. \<not> is_known f) (detect_faces sec located))"
    by (rule map_cong) (auto dest: detect_faces_names)
  then show ?thesis
    by (simp add: unknown_face_check_def face_loop_log)
qed

lemma process_frame_log:
  "alert_log (app_security (process_frame lib inp app)) =
     alert_log
       (unknown_face_check (get_people_detections (fi_detections inp)) (fi_located inp)
          (if fi_motion_detected inp \<and> fi_motion_mag inp > 10
           then generate_alert ''motion_detected'' ''medium''
                  (MotionData (fi_motion_mag inp)
                     (length (get_people_detections (fi_detections inp))))
                  (app_security app)
           else app_security app))"
  by (simp add: process_frame_def Let_def get_fps_def)

lemma face_frame_faces:
  "face_recognition sec \<Longrightarrow>
   detect_faces sec (fi_located (face_frame t)) =
     [\<lparr>face_location = (40, 200, 160, 80), face_encoding = [], face_name = ''Unknown'',
       is_known = False\<rparr>]"
  by (simp add: detect_faces_def face_frame_def idle_frame_def recognize_face_def)

lemma face_frame_people:
  "get_people_detections (fi_detections (face_frame t)) = [box_at 100 100]"
  "\<not> (fi_motion_detected (face_frame t))"
  by (simp_all add: face_frame_def idle_frame_def get_people_detections_def box_at_def)

section \<open>The tracker: claims\<close>

text \<open>
  Claim C1. In every state that the module can reach, and for every list of person
  detections, one call of \<^verbatim>\<open>_update_tracks\<close> gives no centroid to two tracks (the centroid
  indices in \<open>tu_assigned\<close> are distinct) and no track two centroids (the track identifiers
  in \<open>tu_assigned\<close> are distinct, and they are identifiers of existing tracks); the
  centroids that spawn a track are exactly the unmatched ones, each once and in order,
  with consecutive fresh identifiers; the resulting track set consists of the assigned
  tracks followed by the new ones, every one of them at the centroid it was given; and
  the call does not end in its exception handler.
\<close>

theorem tracker_assignment_one_to_one:
  fixes lib cfg ops clk dets
  defines "s \<equiv> run lib (analytics_init cfg) ops"
  defines "u \<equiv> tracks_step clk dets s"
  shows "distinct (map snd (tu_assigned u)) \<and>
         distinct (map fst (tu_assigned u)) \<and>
         set (map fst (tu_assigned u)) \<subseteq> set (dict_keys (person_tracks s)) \<and>
         map fst (tu_created u)
           = filter (\<lambda>i. i \<notin> snd ` set (tu_assigned u)) [0..<length dets] \<and>
         map snd (tu_created u) = [track_counter s + 1..tu_counter u] \<and>
         dict_keys (tu_tracks u) = map fst (tu_assigned u) @ map snd (tu_created u) \<and>
         distinct (dict_keys (tu_tracks u)) \<and>
         (\<forall>(tid, i) \<in> set (tu_assigned u). i < length dets \<and>
           (\<exists>t. map_of (tu_tracks u) tid = Some t \<and> position t = centroid (dets ! i))) \<and>
         (\<forall>(i, tid) \<in> set (tu_created u). i < length dets \<and>
           (\<exists>t. map_of (tu_tracks u) tid = Some t \<and> position t = centroid (dets ! i))) \<and>
         \<not> tu_raised u"
proof -
  have wf: "tracks_wf (person_tracks s) (track_counter s)"
    unfolding s_def by (rule run_wf)
  have u: "u = update_tracks clk 0 dets (person_tracks s) (track_counter s)"
    by (simp add: u_def tracks_step_def)
  note f = update_tracks_facts [OF wf u]
  have "distinct (dict_keys (tu_tracks u))"
    using update_tracks_wf(1) [OF wf, of clk 0 dets] by (simp add: u tracks_wf_def)
  with f show ?thesis by blast
qed

theorem tracker_assignment_witness:
  "(let s = run sample_numerics (analytics_init default_config)
              [Update (steady_clock 10) [box_at 100 100, box_at 500 500] (480, 640)];
        dets = [box_at 105 102, box_at 300 300];
        u = tracks_step (steady_clock 11) dets s
    in tu_assigned u = [(1, 0)] \<and> tu_created u = [(1, 3)] \<and>
       dict_keys (tu_tracks u) = [1, 3] \<and>
       (\<forall>(tid, i) \<in> set (tu_assigned u). i < length dets \<and>
           (\<exists>t. map_of (tu_tracks u) tid = Some t \<and> position t = centroid (dets ! i))) \<and>
       (\<forall>(i, tid) \<in> set (tu_created u). i < length dets \<and>
           (\<exists>t. map_of (tu_tracks u) tid = Some t \<and> position t = centroid (dets ! i))))"
proof -
  have c: "cfg_enable_people_counting default_config" by (simp add: default_config_def)
  define s where "s = run sample_numerics (analytics_init default_config)
              [Update (steady_clock 10) [box_at 100 100, box_at 500 500] (480, 640)]"
  define u where "u = tracks_step (steady_clock 11) [box_at 105 102, box_at 300 300] s"
  have ev: "tu_assigned u = [(1, 0)]" "tu_created u = [(1, 3)]"
    unfolding u_def s_def tracks_step_def first_update [OF c]
    by (simp_all add: sample_centroids sample_step)
  have "dict_keys (tu_tracks u) = map fst (tu_assigned u) @ map snd (tu_created u)"
    and "\<forall>(tid, i) \<in> set (tu_assigned u). i < length [box_at 105 102, box_at 300 300] \<and>
           (\<exists>t. map_of (tu_tracks u) tid = Some t \<and>
                position t = centroid ([box_at 105 102, box_at 300 300] ! i))"
    and "\<forall>(i, tid) \<in> set (tu_created u). i < length [box_at 105 102, box_at 300 300] \<and>
           (\<exists>t. map_of (tu_tracks u) tid = Some t \<and>
                position t = centroid ([box_at 105 102, box_at 300 300] ! i))"
    using tracker_assignment_one_to_one
      [of "steady_clock 11" "[box_at 105 102, box_at 300 300]" sample_numerics default_config
        "[Update (steady_clock 10) [box_at 100 100, box_at 500 500] (480, 640)]"]
    unfolding u_def s_def by blast+
  then show ?thesis
    unfolding Let_def s_def [symmetric] u_def [symmetric] using ev by simp
qed

text \<open>
  Claim C2. In every state that the module can reach, a call of \<^verbatim>\<open>update\<close> removes every
  existing track for which no incoming centroid that is still unmatched when the loop
  reaches the track lies at Euclidean distance below 50: the identifier is not a key of
  the track set when the call returns.
\<close>

theorem unmatched_track_evicted:
  fixes lib cfg ops
  defines "s \<equiv> run lib (analytics_init cfg) ops"
  assumes mem: "(tid, t) \<in> set (person_tracks s)"
    and far: "\<forall>i < length dets. i \<notin> matched_before clk 0 dets (person_tracks s) tid
                \<longrightarrow> \<not> euclid (centroid (dets ! i)) (position t) < 50"
  shows "tid \<notin> set (dict_keys (person_tracks (fst (update lib clk dets frame_shape s))))"
proof -
  have inv: "analytics_inv s" unfolding s_def by (rule run_inv)
  then have wf: "tracks_wf (person_tracks s) (track_counter s)"
    and en: "enable_counting s" using mem by (auto simp: analytics_inv_def)
  have far2: "\<forall>i < length dets. i \<notin> matched_before clk 0 dets (person_tracks s) tid
                \<longrightarrow> \<not> dist2 (centroid (dets ! i)) (position t) < 2500"
    using far by (simp add: sqrt_dist_less_50)
  show ?thesis
    using update_tracks_evicts [OF wf mem far2] en
    by (simp add: update_tracks_part tracks_step_def)
qed

theorem unmatched_track_evicted_witness:
  "(let s = run sample_numerics (analytics_init default_config)
              [Update (steady_clock 10) [box_at 100 100, box_at 500 500] (480, 640)];
        t = \<lparr>position = (500, 500), entry_time = 10, last_seen = 10\<rparr>;
        dets = [box_at 105 102]
    in (2, t) \<in> set (person_tracks s) \<and>
       (\<forall>i < length dets. i \<notin> matched_before (steady_clock 11) 0 dets (person_tracks s) 2
                \<longrightarrow> \<not> euclid (centroid (dets ! i)) (position t) < 50) \<and>
       2 \<notin> set (dict_keys (person_tracks (fst (update sample_numerics (steady_clock 11) dets (480, 640) s)))))"
proof -
  have c: "cfg_enable_people_counting default_config" by (simp add: default_config_def)
  define s where "s = run sample_numerics (analytics_init default_config)
              [Update (steady_clock 10) [box_at 100 100, box_at 500 500] (480, 640)]"
  define t where "t = \<lparr>position = (500, 500), entry_time = 10, last_seen = 10\<rparr>"
  have mem: "(2, t) \<in> set (person_tracks s)"
    unfolding s_def t_def first_update [OF c] by (simp add: sample_centroids steady_clock_def)
  have far: "\<forall>i < length [box_at 105 102].
       i \<notin> matched_before (steady_clock 11) 0 [box_at 105 102] (person_tracks s) 2
         \<longrightarrow> \<not> euclid (centroid ([box_at 105 102] ! i)) (position t) < 50"
    by (simp add: sqrt_dist_less_50 sample_centroids dist2_def t_def)
  have "2 \<notin> set (dict_keys (person_tracks
          (fst (update sample_numerics (steady_clock 11) [box_at 105 102] (480, 640) s))))"
    using unmatched_track_evicted [OF mem [unfolded s_def] far [unfolded s_def]]
    unfolding s_def .
  then show ?thesis
    unfolding Let_def s_def [symmetric] t_def [symmetric] using mem far by simp
qed

text \<open>
  Claim C3. Starting from an empty tracker that counts people, an update with two
  detections centred at (100,100) and (500,500) creates the tracks 1 and 2; a second update
  with one detection centred at (105,102) keeps track 1 at the new position, removes
  track 2, reports one active track, and creates no track (the counter stays at 2).
\<close>

theorem tracker_scenario:
  assumes cnt: "cfg_enable_people_counting cfg"
    and a: "centroid a = (100, 100)" and b: "centroid b = (500, 500)"
    and c: "centroid c = (105, 102)"
  shows "let s1 = fst (update lib clk1 [a, b] fr1 (analytics_init cfg));
             r2 = update lib clk2 [c] fr2 s1
         in person_tracks s1 =
              [(1, \<lparr>position = (100, 100), entry_time = clk1 0, last_seen = clk1 1\<rparr>),
               (2, \<lparr>position = (500, 500), entry_time = clk1 2, last_seen = clk1 3\<rparr>)] \<and>
            track_counter s1 = 2 \<and>
            person_tracks (fst r2) =
              [(1, \<lparr>position = (105, 102), entry_time = clk1 0, last_seen = clk2 0\<rparr>)] \<and>
            active_tracks (snd r2) = 1 \<and>
            track_counter (fst r2) = 2 \<and>
            tu_assigned (tracks_step clk2 [c] s1) = [(1, 0)] \<and>
            tu_created (tracks_step clk2 [c] s1) = []"
proof -
  define s1 where "s1 = fst (update lib clk1 [a, b] fr1 (analytics_init cfg))"
  have e0: "enable_counting (analytics_init cfg)" "person_tracks (analytics_init cfg) = []"
    "track_counter (analytics_init cfg) = 0"
    using cnt by (simp_all add: analytics_init_def)
  have t1: "person_tracks s1 =
              [(1, \<lparr>position = (100, 100), entry_time = clk1 0, last_seen = clk1 1\<rparr>),
               (2, \<lparr>position = (500, 500), entry_time = clk1 2, last_seen = clk1 3\<rparr>)]"
    and c1: "track_counter s1 = 2" and en1: "enable_counting s1"
    unfolding s1_def
    by (simp_all add: update_tracks_part e0 tracks_step_def scenario_first a b
        numeral_2_eq_2 numeral_3_eq_3)
  have step2: "tracks_step clk2 [c] s1 =
     \<lparr>tu_tracks = [(1, \<lparr>position = (105, 102), entry_time = clk1 0, last_seen = clk2 0\<rparr>)],
      tu_counter = 2, tu_clock = Suc 0, tu_assigned = [(1, 0)], tu_created = [],
      tu_raised = False\<rparr>"
    unfolding tracks_step_def t1 c1 by (rule scenario_second [OF refl refl c])
  have "person_tracks (fst (update lib clk2 [c] fr2 s1)) =
              [(1, \<lparr>position = (105, 102), entry_time = clk1 0, last_seen = clk2 0\<rparr>)]"
    "track_counter (fst (update lib clk2 [c] fr2 s1)) = 2"
    "active_tracks (snd (update lib clk2 [c] fr2 s1)) = 1"
    by (simp_all add: update_active update_tracks_part en1 step2)
  then show ?thesis
    using t1 c1 step2 unfolding Let_def s1_def [symmetric] by simp
qed

theorem tracker_scenario_witness:
  "cfg_enable_people_counting default_config \<and>
   centroid (box_at 100 100) = (100, 100) \<and> centroid (box_at 500 500) = (500, 500) \<and>
   centroid (box_at 105 102) = (105, 102) \<and>
   (let s1 = fst (update sample_numerics (steady_clock 10) [box_at 100 100, box_at 500 500] (480, 640)
                    (analytics_init default_config));
        r2 = update sample_numerics (steady_clock 11) [box_at 105 102] (480, 640) s1
    in dict_keys (person_tracks s1) = [1, 2] \<and>
       dict_keys (person_tracks (fst r2)) = [1] \<and>
       active_tracks (snd r2) = 1 \<and>
       track_counter (fst r2) = 2)"
proof -
  have h: "cfg_enable_people_counting default_config"
    "centroid (box_at 100 100) = (100, 100)" "centroid (box_at 500 500) = (500, 500)"
    "centroid (box_at 105 102) = (105, 102)"
    by (simp_all add: default_config_def centroid_def box_at_def)
  show ?thesis
    using h tracker_scenario [OF h, of sample_numerics "steady_clock 10" "(480, 640)" "steady_clock 11" "(480, 640)"]
    by (simp add: Let_def dict_keys_def)
qed

section \<open>Dwell time\<close>

text \<open>
  Claim C4. In every state that the module can reach and for every time \<open>now\<close>, the
  average dwell time is 0 when there is no active track, and otherwise the sum of
  \<open>now - entry_time\<close> over the identifiers of the active tracks, each counted once, divided
  by their number. This is the value that \<^verbatim>\<open>get_statistics\<close> reports, and the value that
  \<^verbatim>\<open>update\<close> reports for the tracks it leaves behind, at the clock reading of line 133.
\<close>

theorem avg_dwell_time_is_mean:
  fixes lib cfg ops
  defines "s \<equiv> run lib (analytics_init cfg) ops"
  defines "active \<equiv> set (dict_keys (person_tracks s))"
  shows "calculate_avg_dwell_time now s =
           (if active = {} then 0
            else (\<Sum>tid \<in> active. now - entry_time (the (map_of (person_tracks s) tid)))
                   / of_nat (card active)) \<and>
         avg_dwell_time (get_statistics now s) = calculate_avg_dwell_time now s \<and>
         average_dwell_time (snd (update lib clk dets fr s)) =
           calculate_avg_dwell_time
             (clk (if enable_counting s then tu_clock (tracks_step clk dets s) else 0))
             (fst (update lib clk dets fr s))"
proof -
  have wf: "tracks_wf (person_tracks s) (track_counter s)"
    unfolding s_def by (rule run_wf)
  then have dk: "distinct (map fst (person_tracks s))"
    by (simp add: tracks_wf_def dict_keys_def)
  have empty: "active = {} \<longleftrightarrow> person_tracks s = []"
    by (simp add: active_def dict_keys_def)
  have card: "card active = length (person_tracks s)"
    using distinct_card [OF dk] by (simp add: active_def dict_keys_def)
  have "calculate_avg_dwell_time now s =
           (if active = {} then 0
            else (\<Sum>tid \<in> active. now - entry_time (the (map_of (person_tracks s) tid)))
                   / of_nat (card active))"
    unfolding empty card
    using dwell_sum_over_keys [OF dk, of now]
    by (simp add: calculate_avg_dwell_time_def Let_def dict_values_def active_def dict_keys_def)
  moreover have "avg_dwell_time (get_statistics now s) = calculate_avg_dwell_time now s"
    by (simp add: get_statistics_def)
  moreover have "average_dwell_time (snd (update lib clk dets fr s)) =
           calculate_avg_dwell_time
             (clk (if enable_counting s then tu_clock (tracks_step clk dets s) else 0))
             (fst (update lib clk dets fr s))"
    by (simp add: update_def Let_def update_heatmap_def tracks_step_def)
  ultimately show ?thesis by blast
qed

theorem avg_dwell_time_witness:
  "calculate_avg_dwell_time 16
     (run sample_numerics (analytics_init default_config)
        [Update (steady_clock 10) [box_at 100 100, box_at 500 500] (480, 640)]) = 6 \<and>
   set (dict_keys (person_tracks
     (run sample_numerics (analytics_init default_config)
        [Update (steady_clock 10) [box_at 100 100, box_at 500 500] (480, 640)]))) = {1, 2} \<and>
   calculate_avg_dwell_time 16 (run sample_numerics (analytics_init default_config) []) = 0"
proof -
  have c: "cfg_enable_people_counting default_config" by (simp add: default_config_def)
  note t = first_update(1) [OF c, of sample_numerics "steady_clock 10" "box_at 100 100"
      "box_at 500 500" "(480, 640)"]
  have "set (dict_keys (person_tracks
     (run sample_numerics (analytics_init default_config)
        [Update (steady_clock 10) [box_at 100 100, box_at 500 500] (480, 640)]))) = {1, 2}"
    unfolding t by (auto simp: dict_keys_def)
  moreover have "the (map_of (person_tracks
     (run sample_numerics (analytics_init default_config)
        [Update (steady_clock 10) [box_at 100 100, box_at 500 500] (480, 640)])) 1)
       = \<lparr>position = (100, 100), entry_time = 10, last_seen = 10\<rparr>"
    "the (map_of (person_tracks
     (run sample_numerics (analytics_init default_config)
        [Update (steady_clock 10) [box_at 100 100, box_at 500 500] (480, 640)])) 2)
       = \<lparr>position = (500, 500), entry_time = 10, last_seen = 10\<rparr>"
    unfolding t by (simp_all add: sample_centroids steady_clock_def)
  moreover have "person_tracks (run sample_numerics (analytics_init default_config) []) = []"
    by (simp add: run_def analytics_init_def)
  ultimately show ?thesis
    using avg_dwell_time_is_mean [of 16 sample_numerics default_config
        "[Update (steady_clock 10) [box_at 100 100, box_at 500 500] (480, 640)]"]
      avg_dwell_time_is_mean [of 16 sample_numerics default_config "[]"]
    by (simp add: dict_keys_def)
qed

section \<open>Track identifiers\<close>

text \<open>
  Claim C5 as stated fails: \<^verbatim>\<open>reset_statistics\<close> sets the counter back to 0, so the track
  created by the update after the reset receives the identifier 1 again.
\<close>

theorem identifiers_reused_after_reset:
  "\<not> sorted_wrt (<)
       (issued sample_numerics (analytics_init default_config)
          [Update (steady_clock 10) [box_at 100 100] (480, 640), ResetStatistics,
           Update (steady_clock 20) [box_at 100 100] (480, 640)])"
proof -
  have c: "cfg_enable_people_counting default_config" by (simp add: default_config_def)
  show ?thesis unfolding issued_after_reset [OF c] by simp
qed

text \<open>
  Claim C5, amended. From any state, over any sequence of updates and heatmap resets that
  contains no \<^verbatim>\<open>reset_statistics\<close>, every newly created track receives an identifier
  strictly greater than every identifier issued earlier in the sequence and strictly
  greater than the counter at its start; \<^verbatim>\<open>reset_statistics\<close> empties the track set and sets
  the counter to 0.
\<close>

theorem identifiers_fresh_between_resets:
  "ResetStatistics \<notin> set ops \<Longrightarrow>
   sorted_wrt (<) (issued lib s ops) \<and>
   (\<forall>x \<in> set (issued lib s ops). track_counter s < x) \<and>
   track_counter (reset_statistics s) = 0 \<and> person_tracks (reset_statistics s) = []"
  using issued_above [of ops lib s] by (simp add: reset_statistics_def)

theorem identifiers_fresh_witness:
  "ResetStatistics \<notin> set [Update (steady_clock 10) [box_at 100 100] (480, 640), ResetHeatmap,
                            Update (steady_clock 20) [box_at 300 300] (480, 640)] \<and>
   issued sample_numerics (analytics_init default_config)
     [Update (steady_clock 10) [box_at 100 100] (480, 640), ResetHeatmap,
      Update (steady_clock 20) [box_at 300 300] (480, 640)] = [1, 2] \<and>
   sorted_wrt (<)
     (issued sample_numerics (analytics_init default_config)
        [Update (steady_clock 10) [box_at 100 100] (480, 640), ResetHeatmap,
         Update (steady_clock 20) [box_at 300 300] (480, 640)])"
proof -
  have h: "ResetStatistics \<notin> set [Update (steady_clock 10) [box_at 100 100] (480, 640), ResetHeatmap,
                            Update (steady_clock 20) [box_at 300 300] (480, 640)]" by simp
  have c: "cfg_enable_people_counting default_config" by (simp add: default_config_def)
  have e0: "enable_counting (analytics_init default_config)"
    "person_tracks (analytics_init default_config) = []"
    "track_counter (analytics_init default_config) = 0"
    by (simp_all add: analytics_init_def default_config_def)
  define s1 where "s1 = reset_heatmap (fst (update sample_numerics (steady_clock 10) [box_at 100 100] (480, 640)
                              (analytics_init default_config)))"
  have e1: "enable_counting s1" "track_counter s1 = 1"
    "person_tracks s1 = [(1, \<lparr>position = (100, 100), entry_time = 10, last_seen = 10\<rparr>)]"
    unfolding s1_def
    by (simp_all add: reset_heatmap_def update_tracks_part e0 tracks_step_def single_update steady_clock_def
        sample_centroids)
  have step: "tu_created (tracks_step (steady_clock 20) [box_at 300 300] s1) = [(0, 2)]"
    by (simp add: tracks_step_def e1 update_tracks_def current_centroids_def match_start_def
        dict_keys_def dict_del_def find_closest_def dist2_def sample_centroids)
  have step0: "tu_created (tracks_step (steady_clock 10) [box_at 100 100]
                  (analytics_init default_config)) = [(0, 1)]"
    by (simp add: tracks_step_def e0 single_update)
  have ev: "issued sample_numerics (analytics_init default_config)
     [Update (steady_clock 10) [box_at 100 100] (480, 640), ResetHeatmap,
      Update (steady_clock 20) [box_at 300 300] (480, 640)] = [1, 2]"
    by (simp add: s1_def [symmetric] e0 e1 step step0)
  show ?thesis
    using h ev identifiers_fresh_between_resets [OF h, of sample_numerics "analytics_init default_config"]
    by simp
qed

section \<open>The processed-frame counter\<close>

text \<open>
  Claim C6 as stated fails. While RUNNING, a frame processed more than one second after
  the last reset of the window takes the counter from 2 to 1; while STOPPED, a status read
  more than one second after the last reset takes it from 2 to 0.
\<close>

theorem frame_counter_decreases:
  "running (foldl (pipeline_step sample_numerics)
              (start (camera_app_init sample_security default_config 0))
              [ProcessFrame (idle_frame (1/4)), ProcessFrame (idle_frame (1/2))]) \<and>
   fps_counter
     (pipeline_step sample_numerics
        (foldl (pipeline_step sample_numerics)
           (start (camera_app_init sample_security default_config 0))
           [ProcessFrame (idle_frame (1/4)), ProcessFrame (idle_frame (1/2))])
        (ProcessFrame (idle_frame (3/2))))
     < fps_counter
         (foldl (pipeline_step sample_numerics)
            (start (camera_app_init sample_security default_config 0))
            [ProcessFrame (idle_frame (1/4)), ProcessFrame (idle_frame (1/2))]) \<and>
   \<not> running (stop (foldl (pipeline_step sample_numerics)
              (start (camera_app_init sample_security default_config 0))
              [ProcessFrame (idle_frame (1/4)), ProcessFrame (idle_frame (1/2))])) \<and>
   fps_counter
     (pipeline_step sample_numerics
        (stop (foldl (pipeline_step sample_numerics)
           (start (camera_app_init sample_security default_config 0))
           [ProcessFrame (idle_frame (1/4)), ProcessFrame (idle_frame (1/2))]))
        (StatusRead 5 5))
     \<noteq> fps_counter
         (stop (foldl (pipeline_step sample_numerics)
            (start (camera_app_init sample_security default_config 0))
            [ProcessFrame (idle_frame (1/4)), ProcessFrame (idle_frame (1/2))]))"
proof -
  define a2 where "a2 = foldl (pipeline_step sample_numerics)
              (start (camera_app_init sample_security default_config 0))
              [ProcessFrame (idle_frame (1/4)), ProcessFrame (idle_frame (1/2))]"
  have f: "fps_counter a2 = 2" "last_fps_time a2 = 0" "running a2"
    unfolding a2_def by (rule two_frames)+
  have r: "fi_fps_read (idle_frame (3/2)) = 3/2" by (simp add: idle_frame_def)
  have "fps_counter (pipeline_step sample_numerics a2 (ProcessFrame (idle_frame (3/2)))) = 1"
    by (simp add: process_frame_effect f r)
  moreover have "fps_counter (pipeline_step sample_numerics (stop a2) (StatusRead 5 5)) = 0"
    by (simp add: status_route_effect get_fps_effect f stop_def)
  moreover have "\<not> running (stop a2)" "fps_counter (stop a2) = 2"
    by (simp_all add: stop_def f)
  ultimately show ?thesis
    unfolding a2_def [symmetric] using f by simp
qed

text \<open>
  Claim C6, amended. Over any sequence of frame-processing and status-read operations of
  which none reads the frame rate more than one second after the window was last reset,
  the processed-frame counter does not decrease, and it does not change while STOPPED. In
  general a completed frame adds one and a frame-rate read that comes more than one second
  after the last reset sets the counter to 0 first, in both states.
\<close>

theorem frame_counter_monotone_within_window:
  "(window_open app ops \<longrightarrow>
      fps_counter app \<le> fps_counter (foldl (pipeline_step lib) app ops) \<and>
      (\<not> running app \<longrightarrow> fps_counter (foldl (pipeline_step lib) app ops) = fps_counter app)) \<and>
   fps_counter (pipeline_step lib app (ProcessFrame inp)) =
     (if running app
      then (if fi_fps_read inp - last_fps_time app > 1 then 0 else fps_counter app) + 1
      else fps_counter app) \<and>
   fps_counter (pipeline_step lib app (StatusRead t_read t_reset)) =
     (if t_read - last_fps_time app > 1 then 0 else fps_counter app)"
  using pipeline_run_open [of app ops lib]
    pipeline_step_effect(1) [of lib app "ProcessFrame inp"]
    pipeline_step_effect(1) [of lib app "StatusRead t_read t_reset"]
  by simp

theorem frame_counter_witness:
  "window_open (start (camera_app_init sample_security default_config 0))
     [ProcessFrame (idle_frame (1/4)), StatusRead (1/3) (1/3), ProcessFrame (idle_frame (1/2))] \<and>
   fps_counter (start (camera_app_init sample_security default_config 0))
     \<le> fps_counter (foldl (pipeline_step sample_numerics)
          (start (camera_app_init sample_security default_config 0))
          [ProcessFrame (idle_frame (1/4)), StatusRead (1/3) (1/3),
           ProcessFrame (idle_frame (1/2))]) \<and>
   window_open (camera_app_init sample_security default_config 0) [StatusRead (1/3) (1/3)] \<and>
   \<not> running (camera_app_init sample_security default_config 0) \<and>
   fps_counter (foldl (pipeline_step sample_numerics)
          (camera_app_init sample_security default_config 0) [StatusRead (1/3) (1/3)])
     = fps_counter (camera_app_init sample_security default_config 0)"
proof -
  have w1: "window_open (start (camera_app_init sample_security default_config 0))
     [ProcessFrame (idle_frame (1/4)), StatusRead (1/3) (1/3), ProcessFrame (idle_frame (1/2))]"
    and w2: "window_open (camera_app_init sample_security default_config 0)
               [StatusRead (1/3) (1/3)]"
    and nr: "\<not> running (camera_app_init sample_security default_config 0)"
    by (simp_all add: start_def camera_app_init_def idle_frame_def)
  show ?thesis
    using w1 w2 nr
      frame_counter_monotone_within_window
        [of "start (camera_app_init sample_security default_config 0)"
          "[ProcessFrame (idle_frame (1/4)), StatusRead (1/3) (1/3),
            ProcessFrame (idle_frame (1/2))]" sample_numerics]
      frame_counter_monotone_within_window
        [of "camera_app_init sample_security default_config 0"
          "[StatusRead (1/3) (1/3)]" sample_numerics]
    by blast
qed

section \<open>Occupancy statistics\<close>

text \<open>
  Claim C7: the occupancy statistics are computed over bins of wall-clock seconds, each
  update's person count being recorded in the bin of the second in which the update
  occurred (line 41 carries the comment \<^verbatim>\<open>Every second\<close>). The code keys the bins by
  \<^verbatim>\<open>frame_count // 30\<close> instead: two updates in the wall-clock seconds 0 and 5, with 3 and
  0 people, land in the same bin. The history holds the single entry (0, 0) and the
  reported peak and mean are 0, where binning by wall-clock second gives the bins (0, 3)
  and (5, 0), the peak 3 and the mean 3/2.
\<close>

theorem occupancy_not_binned_by_wall_clock:
  "people_count_history
     (run sample_numerics (analytics_init default_config)
        [Update (steady_clock (1/2)) [box_at 100 100, box_at 300 300, box_at 500 500] (480, 640),
         Update (steady_clock (11/2)) [] (480, 640)]) = [(0, 0)] \<and>
   peak_people_count (get_statistics 6
     (run sample_numerics (analytics_init default_config)
        [Update (steady_clock (1/2)) [box_at 100 100, box_at 300 300, box_at 500 500] (480, 640),
         Update (steady_clock (11/2)) [] (480, 640)])) = 0 \<and>
   average_people_count (get_statistics 6
     (run sample_numerics (analytics_init default_config)
        [Update (steady_clock (1/2)) [box_at 100 100, box_at 300 300, box_at 500 500] (480, 640),
         Update (steady_clock (11/2)) [] (480, 640)])) = 0 \<and>
   wallclock_history
     (observations
        [Update (steady_clock (1/2)) [box_at 100 100, box_at 300 300, box_at 500 500] (480, 640),
         Update (steady_clock (11/2)) [] (480, 640)]) = [(0, 3), (5, 0)] \<and>
   list_max (dict_values (wallclock_history
     (observations
        [Update (steady_clock (1/2)) [box_at 100 100, box_at 300 300, box_at 500 500] (480, 640),
         Update (steady_clock (11/2)) [] (480, 640)]))) = 3 \<and>
   mean (map of_nat (dict_values (wallclock_history
     (observations
        [Update (steady_clock (1/2)) [box_at 100 100, box_at 300 300, box_at 500 500] (480, 640),
         Update (steady_clock (11/2)) [] (480, 640)])))) = 3 / 2"
proof -
  have w: "wallclock_history
     (observations
        [Update (steady_clock (1/2)) [box_at 100 100, box_at 300 300, box_at 500 500] (480, 640),
         Update (steady_clock (11/2)) [] (480, 640)]) = [(0, 3), (5, 0)]"
  proof -
    have "\<lfloor>1 / 2 :: rat\<rfloor> = 0" "\<lfloor>11 / 2 :: rat\<rfloor> = 5"
      by (rule floor_unique; simp)+
    then show ?thesis by (simp add: wallclock_history_def steady_clock_def)
  qed
  have c: "people_count_history
     (run sample_numerics (analytics_init default_config)
        [Update (steady_clock (1/2)) [box_at 100 100, box_at 300 300, box_at 500 500] (480, 640),
         Update (steady_clock (11/2)) [] (480, 640)]) = [(0, 0)]"
    by (simp add: run_def update_history analytics_init_def)
  show ?thesis unfolding w by (simp add: c get_statistics_def dict_values_def mean_def)
qed

section \<open>Heatmap values\<close>

text \<open>
  Claim C8. In every state that the module can reach, every heatmap value is
  non-negative; no value decreases across an update, nor across any sequence of operations
  that contains no \<^verbatim>\<open>reset_heatmap\<close>; and after \<^verbatim>\<open>reset_heatmap\<close> every value is 0.
\<close>

theorem heatmap_nonnegative_monotone_reset:
  fixes lib cfg ops
  defines "s \<equiv> run lib (analytics_init cfg) ops"
  shows "0 \<le> heatmap s cell \<and>
         heatmap s cell \<le> heatmap (fst (update lib clk dets frame_shape s)) cell \<and>
         (ResetHeatmap \<notin> set later \<longrightarrow> heatmap s cell \<le> heatmap (run lib s later) cell) \<and>
         heatmap (reset_heatmap s) cell = 0"
proof -
  have b: "binary (heatmap s)" unfolding s_def by (rule run_binary)
  have "0 \<le> heatmap s cell"
    using b [unfolded binary_def, rule_format, of cell] by auto
  moreover have "heatmap s cell \<le> heatmap (fst (update lib clk dets frame_shape s)) cell"
    using b by (simp add: update_heatmap_part heatmap_loop_mono)
  moreover have "ResetHeatmap \<notin> set later \<longrightarrow> heatmap s cell \<le> heatmap (run lib s later) cell"
    using run_mono_from [OF b] by blast
  moreover have "heatmap (reset_heatmap s) cell = 0" by (simp add: reset_heatmap_def)
  ultimately show ?thesis by blast
qed

theorem heatmap_invariant_witness:
  "heatmap (run sample_numerics (analytics_init default_config)
              [Update (steady_clock 10) [box_at 100 100] (480, 640)]) (133, 75) = 1 \<and>
   ResetHeatmap \<notin> set [Update (steady_clock 11) [box_at 300 300] (480, 640), ResetStatistics] \<and>
   heatmap (run sample_numerics (analytics_init default_config)
              [Update (steady_clock 10) [box_at 100 100] (480, 640)]) (133, 75)
     \<le> heatmap (run sample_numerics
                 (run sample_numerics (analytics_init default_config)
                    [Update (steady_clock 10) [box_at 100 100] (480, 640)])
                 [Update (steady_clock 11) [box_at 300 300] (480, 640), ResetStatistics])
           (133, 75) \<and>
   heatmap (reset_heatmap (run sample_numerics (analytics_init default_config)
              [Update (steady_clock 10) [box_at 100 100] (480, 640)])) (133, 75) = 0"
proof -
  have h: "ResetHeatmap \<notin> set [Update (steady_clock 11) [box_at 300 300] (480, 640),
                                 ResetStatistics]"
    by simp
  have ev: "heatmap (run sample_numerics (analytics_init default_config)
              [Update (steady_clock 10) [box_at 100 100] (480, 640)]) (133, 75) = 1"
    by (simp add: run_def update_heatmap_part analytics_init_def default_config_def
        sample_heatmap_point cv2_circle_def euclid_disc_def sample_numerics_def del: heatmap_point.simps)
  show ?thesis
    using h ev heatmap_nonnegative_monotone_reset
      [of sample_numerics default_config "[Update (steady_clock 10) [box_at 100 100] (480, 640)]"
        "(133, 75)" "steady_clock 11" "[]" "(480, 640)"
        "[Update (steady_clock 11) [box_at 300 300] (480, 640), ResetStatistics]"]
    by simp
qed

section \<open>Unknown-face alerts\<close>

text \<open>
  Claim C9 as stated fails. With the face library loaded, face recognition enabled in the
  configuration, a person present and one face that is not known, no alert is emitted when
  alerts are switched off: \<^verbatim>\<open>generate_alert\<close> returns at line 121.
\<close>

theorem unknown_face_not_alerted_when_alerts_off:
  "face_recognition silenced_security \<and>
   enable_face_recognition silenced_security \<and>
   get_people_detections (fi_detections (face_frame (1/4))) = [box_at 100 100] \<and>
   detect_faces silenced_security (fi_located (face_frame (1/4))) =
     [\<lparr>face_location = (40, 200, 160, 80), face_encoding = [], face_name = ''Unknown'',
       is_known = False\<rparr>] \<and>
   alert_log (app_security
     (process_frame sample_numerics (face_frame (1/4))
        (start (camera_app_init silenced_security default_config 0)))) = []"
proof -
  have s: "face_recognition silenced_security" "enable_face_recognition silenced_security"
    "\<not> enable_alerts silenced_security" "alert_log silenced_security = []"
    by (simp_all add: silenced_security_def sample_security_def)
  have a: "app_security (start (camera_app_init silenced_security default_config 0))
             = silenced_security"
    by (simp add: start_def camera_app_init_def)
  show ?thesis
    unfolding process_frame_log unknown_face_check_log a
    by (simp add: s face_frame_faces face_frame_people)
qed

text \<open>
  Claim C9, amended. In a processing cycle, if the face library is loaded, face
  recognition and alerts are enabled in the configuration, and at least one person
  detection is present, then the \<^verbatim>\<open>unknown_face\<close> alerts emitted in the cycle are exactly
  one per detected face that is not flagged as known, in order, each of severity critical
  with the name tag \<^verbatim>\<open>"Unknown"\<close> and the location of the face; if the face library is not
  loaded, or alerts are disabled, or no person is present, no \<^verbatim>\<open>unknown_face\<close> alert is
  emitted. Alerts emitted earlier stay in place.
\<close>

theorem unknown_face_alerts:
  "(face_recognition (app_security app) \<and> enable_face_recognition (app_security app) \<and>
    enable_alerts (app_security app) \<and> get_people_detections (fi_detections inp) \<noteq> [] \<longrightarrow>
      filter (\<lambda>a. alert_type a = ''unknown_face'')
        (drop (length (alert_log (app_security app)))
           (alert_log (app_security (process_frame lib inp app))))
        = map (\<lambda>f. \<lparr>alert_type = ''unknown_face'', severity = ''critical'',
                      alert_data = FaceData ''Unknown'' (face_location f)\<rparr>)
            (filter (\<lambda>f. \<not> is_known f)
               (detect_faces (app_security app) (fi_located inp)))) \<and>
   (\<not> face_recognition (app_security app) \<or> \<not> enable_alerts (app_security app) \<or>
    get_people_detections (fi_detections inp) = [] \<longrightarrow>
      filter (\<lambda>a. alert_type a = ''unknown_face'')
        (drop (length (alert_log (app_security app)))
           (alert_log (app_security (process_frame lib inp app)))) = []) \<and>
   take (length (alert_log (app_security app)))
     (alert_log (app_security (process_frame lib inp app))) = alert_log (app_security app)"
proof -
  have m: "filter (\<lambda>a. alert_type a = ''unknown_face'')
             (map (\<lambda>f. \<lparr>alert_type = ''unknown_face'', severity = ''critical'',
                        alert_data = FaceData ''Unknown'' (face_location f)\<rparr>) fs)
           = map (\<lambda>f. \<lparr>alert_type = ''unknown_face'', severity = ''critical'',
                        alert_data = FaceData ''Unknown'' (face_location f)\<rparr>) fs"
    for fs :: "face list"
    by (induction fs) simp_all
  have eq: "filter (\<lambda>a. alert_type a = ''unknown_face'')
     (drop (length (alert_log (app_security app)))
        (alert_log (app_security (process_frame lib inp app))))
     = (if face_recognition (app_security app) \<and>
           get_people_detections (fi_detections inp) \<noteq> [] \<and>
           enable_alerts (app_security app)
        then map (\<lambda>f. \<lparr>alert_type = ''unknown_face'', severity = ''critical'',
                        alert_data = FaceData ''Unknown'' (face_location f)\<rparr>)
               (filter (\<lambda>f. \<not> is_known f)
                  (detect_faces (app_security app) (fi_located inp)))
        else [])"
    and keep: "take (length (alert_log (app_security app)))
     (alert_log (app_security (process_frame lib inp app))) = alert_log (app_security app)"
    unfolding process_frame_log unknown_face_check_log
    by (simp_all add: generate_alert_fields detect_faces_generate_alert m)
  show ?thesis unfolding eq keep by simp
qed

theorem unknown_face_alerts_witness:
  "face_recognition sample_security \<and> enable_face_recognition sample_security \<and>
   enable_alerts sample_security \<and>
   get_people_detections (fi_detections (face_frame (1/4))) \<noteq> [] \<and>
   alert_log (app_security
     (process_frame sample_numerics (face_frame (1/4))
        (start (camera_app_init sample_security default_config 0))))
     = [\<lparr>alert_type = ''unknown_face'', severity = ''critical'',
         alert_data = FaceData ''Unknown'' (40, 200, 160, 80)\<rparr>] \<and>
   \<not> enable_alerts silenced_security \<and>
   filter (\<lambda>a. alert_type a = ''unknown_face'')
     (alert_log (app_security
        (process_frame sample_numerics (face_frame (1/4))
           (start (camera_app_init silenced_security default_config 0))))) = []"
proof -
  have s: "face_recognition sample_security" "enable_face_recognition sample_security"
    "enable_alerts sample_security" "alert_log sample_security = []"
    by (simp_all add: sample_security_def)
  have q: "\<not> enable_alerts silenced_security" "alert_log silenced_security = []"
    by (simp_all add: silenced_security_def sample_security_def)
  have a: "app_security (start (camera_app_init sec default_config 0)) = sec" for sec
    by (simp add: start_def camera_app_init_def)
  have p: "get_people_detections (fi_detections (face_frame (1/4))) \<noteq> []"
    by (simp add: face_frame_people)
  have f: "filter (\<lambda>f. \<not> is_known f)
             (detect_faces sample_security (fi_located (face_frame (1/4))))
           = [\<lparr>face_location = (40, 200, 160, 80), face_encoding = [],
               face_name = ''Unknown'', is_known = False\<rparr>]"
    by (simp add: face_frame_faces s)
  note t1 = unknown_face_alerts
      [of "start (camera_app_init sample_security default_config 0)" "face_frame (1/4)"
        sample_numerics]
  note t2 = unknown_face_alerts
      [of "start (camera_app_init silenced_security default_config 0)" "face_frame (1/4)"
        sample_numerics]
  have new: "filter (\<lambda>a. alert_type a = ''unknown_face'')
        (alert_log (app_security (process_frame sample_numerics (face_frame (1/4))
           (start (camera_app_init sample_security default_config 0)))))
      = [\<lparr>alert_type = ''unknown_face'', severity = ''critical'',
          alert_data = FaceData ''Unknown'' (40, 200, 160, 80)\<rparr>]"
    using t1 s p by (simp add: a f)
  have all: "alert_log (app_security (process_frame sample_numerics (face_frame (1/4))
           (start (camera_app_init sample_security default_config 0))))
      = [\<lparr>alert_type = ''unknown_face'', severity = ''critical'',
          alert_data = FaceData ''Unknown'' (40, 200, 160, 80)\<rparr>]"
    unfolding process_frame_log unknown_face_check_log a
    by (simp add: s face_frame_faces face_frame_people)
  have none: "filter (\<lambda>a. alert_type a = ''unknown_face'')
     (alert_log (app_security
        (process_frame sample_numerics (face_frame (1/4))
           (start (camera_app_init silenced_security default_config 0))))) = []"
    using t2 q by (simp add: a)
  show ?thesis using s q p new all none by simp
qed

section \<open>Heatmap cells\<close>

text \<open>
  Claim C10. In every state that the module can reach, every heatmap cell holds 0 or 1.
  An update with one detection writes 1 into the cells that the circle of radius 10 around
  the detection's heatmap point covers and leaves every other cell as it is, so that no
  cell exceeds 1 after any update. The heatmap point is the one that the code's rounded
  scaling yields, and the cells of the circle are the ones that the library writes: the
  statement holds for every pair of such operations.
\<close>

theorem heatmap_cells_zero_or_one:
  fixes lib cfg ops
  defines "s \<equiv> run lib (analytics_init cfg) ops"
  shows "(heatmap s cell = 0 \<or> heatmap s cell = 1) \<and>
         heatmap (fst (update lib clk [det] frame_shape s)) cell =
           (if enable_heatmap s \<and> snd frame_shape \<noteq> 0 \<and> fst frame_shape \<noteq> 0 \<and>
               nm_circle lib (heatmap_resolution s)
                 (heatmap_point (nm_scale lib) frame_shape (heatmap_resolution s) det) 10 cell
            then 1 else heatmap s cell) \<and>
         heatmap (fst (update lib clk dets frame_shape s)) cell \<le> 1"
proof -
  have b: "binary (heatmap s)" unfolding s_def by (rule run_binary)
  have b': "binary (heatmap (fst (update lib clk dets frame_shape s)))"
    by (rule update_binary [OF b])
  have "heatmap s cell = 0 \<or> heatmap s cell = 1"
    using b [unfolded binary_def, rule_format, of cell] .
  moreover have "heatmap (fst (update lib clk dets frame_shape s)) cell \<le> 1"
    using b' [unfolded binary_def, rule_format, of cell] by auto
  moreover have "heatmap (fst (update lib clk [det] frame_shape s)) cell =
           (if enable_heatmap s \<and> snd frame_shape \<noteq> 0 \<and> fst frame_shape \<noteq> 0 \<and>
               nm_circle lib (heatmap_resolution s)
                 (heatmap_point (nm_scale lib) frame_shape (heatmap_resolution s) det) 10 cell
            then 1 else heatmap s cell)"
    by (simp add: update_heatmap_part cv2_circle_def)
  ultimately show ?thesis by blast
qed

theorem heatmap_cells_witness:
  "heatmap (run sample_numerics (analytics_init default_config)
              [Update (steady_clock 10) [box_at 100 100] (480, 640),
               Update (steady_clock 11) [box_at 100 100] (480, 640)]) (133, 75) = 1 \<and>
   heatmap (run sample_numerics (analytics_init default_config)
              [Update (steady_clock 10) [box_at 100 100] (480, 640),
               Update (steady_clock 11) [box_at 100 100] (480, 640)]) (0, 0) = 0"
proof -
  define s where "s = run sample_numerics (analytics_init default_config)
              [Update (steady_clock 10) [box_at 100 100] (480, 640)]"
  have r: "run sample_numerics (analytics_init default_config)
              [Update (steady_clock 10) [box_at 100 100] (480, 640),
               Update (steady_clock 11) [box_at 100 100] (480, 640)]
             = fst (update sample_numerics (steady_clock 11) [box_at 100 100] (480, 640) s)"
    by (simp add: s_def run_def)
  have s0: "heatmap s (0, 0) = 0" "enable_heatmap s" "heatmap_resolution s = (640, 480)"
    by (simp_all add: s_def run_def update_heatmap_part update_tracks_part analytics_init_def
        default_config_def sample_heatmap_point cv2_circle_def euclid_disc_def sample_numerics_def
        del: heatmap_point.simps)
  have "heatmap (fst (update sample_numerics (steady_clock 11) [box_at 100 100] (480, 640) s)) cell =
           (if enable_heatmap s \<and> snd (480::int, 640::int) \<noteq> 0 \<and> fst (480::int, 640::int) \<noteq> 0 \<and>
               nm_circle sample_numerics (heatmap_resolution s)
                 (heatmap_point (nm_scale sample_numerics) (480, 640) (heatmap_resolution s)
                    (box_at 100 100)) 10 cell
            then 1 else heatmap s cell)" for cell
    using heatmap_cells_zero_or_one
      [of sample_numerics default_config "[Update (steady_clock 10) [box_at 100 100] (480, 640)]"
        cell "steady_clock 11" "box_at 100 100" "(480, 640)" "[]"]
    unfolding s_def by blast
  then show ?thesis
    unfolding r
    by (simp add: s0 sample_heatmap_point euclid_disc_def sample_numerics_def
        del: heatmap_point.simps)
qed

end
